theory Spec2Isabelle
  imports Main "HOL-Library.Word" "HOL-Library.Log_Nat"
begin

section \<open>JavaScript values used by the reporter\<close>

text \<open>
  A JavaScript string is a sequence of UTF-16 code units: \<^verbatim>\<open>s.length\<close> counts code
  units and \<^verbatim>\<open>s.substring(0, n)\<close> keeps the first \<open>n\<close> of them (all of them when the
  string is shorter), which is \<open>take n s\<close>. String concatenation is \<open>@\<close>.
\<close>

type_synonym jsstring = "16 word list"

text \<open>An ASCII literal of the source, as code units.\<close>

definition js :: "string \<Rightarrow> jsstring" where
  "js s = map of_char s"

text \<open>
  \<^verbatim>\<open>Array.prototype.join(sep)\<close> on an array of strings: the elements in order,
  \<open>sep\<close> between each two; the empty array gives the empty string.
\<close>

fun join :: "jsstring \<Rightarrow> jsstring list \<Rightarrow> jsstring" where
  "join sep [] = []"
| "join sep [x] = x"
| "join sep (x # y # ys) = x @ sep @ join sep (y # ys)"

text \<open>
  \<^verbatim>\<open>n.toString()\<close> and \<^verbatim>\<open>`${n}`\<close> for a count \<open>n\<close>: its decimal digits, most
  significant first, no leading zero. The counters of the source are JavaScript numbers
  that start at 0 and are only incremented, and array lengths; they are modelled as
  natural numbers (a JavaScript number counts exactly up to \<open>2 ^ 53\<close>, and prints as plain
  digits below \<open>10 ^ 21\<close>).
\<close>

definition digit :: "nat \<Rightarrow> 16 word" where
  "digit d = of_nat (48 + d)"

fun toString :: "nat \<Rightarrow> jsstring" where
  "toString n = (if n < 10 then [digit n] else toString (n div 10) @ [digit (n mod 10)])"

declare toString.simps [simp del]

section \<open>The result tree of the test runner\<close>

text \<open>
  \<^verbatim>\<open>RunnerTask\<close> is a suite or a test, told apart by its \<^verbatim>\<open>type\<close> tag. The reporter
  reads \<^verbatim>\<open>type\<close>, \<^verbatim>\<open>name\<close>, \<^verbatim>\<open>mode\<close>, the optional \<^verbatim>\<open>result\<close> (its \<^verbatim>\<open>state\<close>
  and optional \<^verbatim>\<open>errors\<close>) and the children \<^verbatim>\<open>tasks\<close>, which it looks for on every
  node whatever its tag (\<^verbatim>\<open>'tasks' in task && task.tasks\<close>). An absent field is \<open>None\<close>.
\<close>

datatype task_type = Suite | Test

datatype run_mode = Run | Skip | Only | Todo | Queued

datatype task_state = Pass | Fail | ModeState run_mode

record test_error =
  message :: "jsstring option"
  stack :: "jsstring option"

record task_result =
  state :: task_state
  errors :: "test_error list option"

datatype task =
  Task (ttype: task_type) (name: jsstring) (mode: run_mode)
       (result: "task_result option") (tasks: "task list option")

record test_file =
  file_name :: jsstring
  file_tasks :: "task list option"

subsection \<open>Configuration\<close>

record reporter_options =
  webhookUrl :: jsstring
  title :: jsstring
  includeStackTrace :: bool
  mentionOnFailure :: jsstring
  showPassedTests :: bool

section \<open>Stats Calculator\<close>

record stats =
  passed :: nat
  failed :: nat
  skipped :: nat
  total :: nat

text \<open>
  \<^verbatim>\<open>countTests\<close> is a closure over the four counters; the model passes them as a
  \<open>stats\<close> record and returns it updated. \<^verbatim>\<open>task.result?.state === 'pass'\<close> is false
  when the result is absent.
\<close>

fun countTests :: "task \<Rightarrow> stats \<Rightarrow> stats" where
  "countTests (Task ty nm md res ts) s =
     (let s1 =
        (if ty = Test then
           (let s' = s\<lparr>total := total s + 1\<rparr> in
            if map_option state res = Some Pass then s'\<lparr>passed := passed s' + 1\<rparr>
            else if map_option state res = Some Fail then s'\<lparr>failed := failed s' + 1\<rparr>
            else if md = Skip \<or> md = Todo then s'\<lparr>skipped := skipped s' + 1\<rparr>
            else s')
         else s)
      in case ts of
           Some cs \<Rightarrow> fold countTests cs s1
         | None \<Rightarrow> s1)"

definition calculateStats :: "test_file list \<Rightarrow> stats" where
  "calculateStats files =
     fold (\<lambda>file s. case file_tasks file of
                       Some ts \<Rightarrow> fold countTests ts s
                     | None \<Rightarrow> s)
          files \<lparr>passed = 0, failed = 0, skipped = 0, total = 0\<rparr>"

section \<open>Traversal order, as the specification words it\<close>

text \<open>
  The nodes below a task in depth-first pre-order, each with its ancestry path: the
  accumulated path of its ancestors followed by its own name. The walk of a file list
  seeds the path of a top-level task with the file's name and follows the files in array
  order. An absent \<^verbatim>\<open>tasks\<close> is an empty sequence of children.
\<close>

fun preorder :: "jsstring list \<Rightarrow> task \<Rightarrow> (jsstring list \<times> task) list" where
  "preorder path (Task ty nm md res ts) =
     (path @ [nm], Task ty nm md res ts) #
     (case ts of
        Some cs \<Rightarrow> concat (map (preorder (path @ [nm])) cs)
      | None \<Rightarrow> [])"

definition file_nodes :: "test_file \<Rightarrow> (jsstring list \<times> task) list" where
  "file_nodes file =
     (case file_tasks file of
        Some ts \<Rightarrow> concat (map (preorder [file_name file]) ts)
      | None \<Rightarrow> [])"

definition all_nodes :: "test_file list \<Rightarrow> (jsstring list \<times> task) list" where
  "all_nodes files = concat (map file_nodes files)"

text \<open>The Test-variant nodes of the walk, and the four classes the counters tell apart.\<close>

definition is_test :: "task \<Rightarrow> bool" where
  "is_test t = (ttype t = Test)"

definition state_of :: "task \<Rightarrow> task_state option" where
  "state_of t = map_option state (result t)"

definition test_nodes :: "test_file list \<Rightarrow> task list" where
  "test_nodes files = filter is_test (map snd (all_nodes files))"

definition counts_passed :: "task \<Rightarrow> bool" where
  "counts_passed t = (state_of t = Some Pass)"

definition counts_failed :: "task \<Rightarrow> bool" where
  "counts_failed t = (state_of t = Some Fail)"

definition counts_skipped :: "task \<Rightarrow> bool" where
  "counts_skipped t =
     (state_of t \<noteq> Some Pass \<and> state_of t \<noteq> Some Fail \<and> (mode t = Skip \<or> mode t = Todo))"

definition unclassified :: "task \<Rightarrow> bool" where
  "unclassified t =
     (state_of t \<noteq> Some Pass \<and> state_of t \<noteq> Some Fail \<and> mode t \<noteq> Skip \<and> mode t \<noteq> Todo)"

text \<open>The counters after counting a list of nodes, from the counters \<open>s\<close> before.\<close>

definition tally :: "task list \<Rightarrow> stats \<Rightarrow> stats" where
  "tally ts s =
     \<lparr>passed = passed s + length (filter counts_passed (filter is_test ts)),
      failed = failed s + length (filter counts_failed (filter is_test ts)),
      skipped = skipped s + length (filter counts_skipped (filter is_test ts)),
      total = total s + length (filter is_test ts)\<rparr>"

section \<open>Failed-Test Collector\<close>

record failed_test =
  test_name :: jsstring
  error :: jsstring

text \<open>
  \<^verbatim>\<open>truncateStackTrace(stack, maxLength = 800)\<close>; its one call site passes no second
  argument, so \<open>maxLength\<close> is 800 there.
\<close>

definition truncateStackTrace :: "jsstring \<Rightarrow> nat \<Rightarrow> jsstring" where
  "truncateStackTrace stck maxLength =
     (if length stck \<le> maxLength then stck
      else take maxLength stck @ js ''\<newline>... (truncated)'')"

text \<open>
  \<^verbatim>\<open>errors?.[0]\<close>: the first error record, absent when \<^verbatim>\<open>errors\<close> is absent or
  empty. \<^verbatim>\<open>x || d\<close> on an optional string is \<open>d\<close> when \<open>x\<close> is absent and also when
  \<open>x\<close> is the empty string (both are falsy), else \<open>x\<close>.
\<close>

definition first_error :: "task_result \<Rightarrow> test_error option" where
  "first_error r = (case errors r of Some (e # es) \<Rightarrow> Some e | _ \<Rightarrow> None)"

definition or_default :: "jsstring option \<Rightarrow> jsstring \<Rightarrow> jsstring" where
  "or_default x d = (case x of Some s \<Rightarrow> (if s = [] then d else s) | None \<Rightarrow> d)"

definition fence :: jsstring where
  "fence = [0x60, 0x60, 0x60]"

text \<open>The error text of a failed test (the body of the \<^verbatim>\<open>if\<close> in \<^verbatim>\<open>collectFailed\<close>).\<close>

definition errorText :: "reporter_options \<Rightarrow> task_result \<Rightarrow> jsstring" where
  "errorText opts r =
     (let errorMessage = or_default (Option.bind (first_error r) message) (js ''Unknown error'');
          stackTrace = or_default (Option.bind (first_error r) stack) []
      in if includeStackTrace opts \<and> stackTrace \<noteq> []
         then errorMessage @ js ''\<newline>'' @ fence @ js ''\<newline>''
                @ truncateStackTrace stackTrace 800 @ js ''\<newline>'' @ fence
         else errorMessage)"

text \<open>
  \<^verbatim>\<open>collectFailed\<close> pushes onto the array \<^verbatim>\<open>failed\<close> of the enclosing call; the model
  passes the array and returns it extended.
\<close>

fun collectFailed ::
  "reporter_options \<Rightarrow> task \<Rightarrow> jsstring list \<Rightarrow> failed_test list \<Rightarrow> failed_test list" where
  "collectFailed opts (Task ty nm md res ts) path failed_acc =
     (let currentPath = path @ [nm];
          failed1 =
            (case res of
               Some r \<Rightarrow>
                 if ty = Test \<and> state r = Fail
                 then failed_acc @ [\<lparr>test_name = join (js '' > '') currentPath,
                                     error = errorText opts r\<rparr>]
                 else failed_acc
             | None \<Rightarrow> failed_acc)
      in case ts of
           Some cs \<Rightarrow> fold (\<lambda>t acc. collectFailed opts t currentPath acc) cs failed1
         | None \<Rightarrow> failed1)"

definition getFailedTests :: "reporter_options \<Rightarrow> test_file list \<Rightarrow> failed_test list" where
  "getFailedTests opts files =
     fold (\<lambda>fl acc. case file_tasks fl of
                      Some ts \<Rightarrow> fold (\<lambda>t acc'. collectFailed opts t [file_name fl] acc') ts acc
                    | None \<Rightarrow> acc)
          files []"

section \<open>Message Builder\<close>

record embed_field =
  field_name :: jsstring
  field_value :: jsstring
  field_inline :: "bool option"

record embed_footer =
  footer_text :: jsstring

record api_embed =
  embed_title :: jsstring
  color :: nat
  description :: "jsstring option"
  embed_fields :: "embed_field list option"
  footer :: "embed_footer option"
  timestamp :: "jsstring option"

text \<open>The two colour sentinels, \<^verbatim>\<open>0xed4245\<close> (red) and \<^verbatim>\<open>0x57f287\<close> (green).\<close>

definition red :: nat where
  "red = 0xed4245"

definition green :: nat where
  "green = 0x57f287"

text \<open>
  The three cuts the builder applies, written inline in the source:
  \<^verbatim>\<open>s.length > L ? s.substring(0, L - 3) + '...' : s\<close> with \<open>L\<close> = 256 for a field name,
  1024 for a field value and 2048 for the passed-tests description.
\<close>

definition truncateName :: "jsstring \<Rightarrow> jsstring" where
  "truncateName s = (if length s > 256 then take 253 s @ js ''...'' else s)"

definition truncateValue :: "jsstring \<Rightarrow> jsstring" where
  "truncateValue s = (if length s > 1024 then take 1021 s @ js ''...'' else s)"

definition truncateDescription :: "jsstring \<Rightarrow> jsstring" where
  "truncateDescription s = (if length s > 2048 then take 2045 s @ js ''...'' else s)"

definition buildFailedTestsEmbed :: "failed_test list \<Rightarrow> api_embed option" where
  "buildFailedTestsEmbed failedTests =
     (if length failedTests = 0 then None
      else
        (let flds = map (\<lambda>test. \<lparr>field_name = truncateName (test_name test),
                                  field_value = truncateValue (error test),
                                  field_inline = None\<rparr>)
                        (take 10 failedTests);
             embed = \<lparr>embed_title = 0x274C # js '' Failed Tests'', color = red,
                      description = None, embed_fields = Some flds, footer = None,
                      timestamp = None\<rparr>
         in Some (if length failedTests > 10
                  then embed\<lparr>description :=
                         Some (js ''Showing 10 of '' @ toString (length failedTests)
                               @ js '' failed tests'')\<rparr>
                  else embed)))"

fun collectPassed :: "task \<Rightarrow> jsstring list \<Rightarrow> jsstring list \<Rightarrow> jsstring list" where
  "collectPassed (Task ty nm md res ts) path passed_acc =
     (let currentPath = path @ [nm];
          passed1 =
            (if ty = Test \<and> map_option state res = Some Pass
             then passed_acc @ [join (js '' > '') currentPath]
             else passed_acc)
      in case ts of
           Some cs \<Rightarrow> fold (\<lambda>t acc. collectPassed t currentPath acc) cs passed1
         | None \<Rightarrow> passed1)"

text \<open>The array \<^verbatim>\<open>passedTests\<close> when the walk of \<^verbatim>\<open>buildPassedTestsEmbed\<close> is over.\<close>

definition passedTests :: "test_file list \<Rightarrow> jsstring list" where
  "passedTests files =
     fold (\<lambda>fl acc. case file_tasks fl of
                      Some ts \<Rightarrow> fold (\<lambda>t acc'. collectPassed t [file_name fl] acc') ts acc
                    | None \<Rightarrow> acc)
          files []"

text \<open>The template literal \<^verbatim>\<open>`\<checkmark> ${test}`\<close>: a check mark (U+2713), a space, the path.\<close>

definition check_line :: "jsstring \<Rightarrow> jsstring" where
  "check_line test = [0x2713, 0x20] @ test"

definition buildPassedTestsEmbed :: "test_file list \<Rightarrow> api_embed option" where
  "buildPassedTestsEmbed files =
     (let passedList = passedTests files in
      if length passedList = 0 then None
      else
        (let testList = join (js ''\<newline>'')
                          (map (\<lambda>test. check_line test) (take 20 passedList));
             descr = truncateDescription testList;
             embed = \<lparr>embed_title = 0x2705 # js '' Passed Tests'', color = green,
                      description = Some (if descr = [] then js ''All tests passed!'' else descr),
                      embed_fields = None, footer = None, timestamp = None\<rparr>
         in Some (if length passedList > 20
                  then embed\<lparr>footer :=
                         Some \<lparr>footer_text = js ''Showing 20 of '' @ toString (length passedList)
                                               @ js '' passed tests''\<rparr>\<rparr>
                  else embed)))"

subsection \<open>The duration field\<close>

text \<open>
  \<^verbatim>\<open>(duration / 1000).toFixed(2)\<close>, where \<^verbatim>\<open>duration\<close> is a difference of two
  \<^verbatim>\<open>Date.now()\<close> readings: an integer number of milliseconds, below \<open>2 ^ 53\<close> in
  absolute value. The quotient is an IEEE 754 binary64 number. A finite double is a sign, a
  significand \<open>m\<close> and a binary exponent \<open>e\<close>, of value \<open>\<plusminus> m * 2 ^ e\<close>; the division
  rounds the exact quotient to the nearest double, ties to the even significand. All of
  this is integer arithmetic.
\<close>

datatype double = Double (negative: bool) (significand: int) (exponent: int)

text \<open>The integer nearest to \<open>n / d\<close> (for \<open>d > 0\<close>), ties to even.\<close>

definition round_half_even :: "int \<Rightarrow> int \<Rightarrow> int" where
  "round_half_even n d =
     (let q = n div d; r = n mod d
      in if 2 * r < d then q
         else if d < 2 * r then q + 1
         else if even q then q else q + 1)"

text \<open>For \<open>a, b > 0\<close>: the \<open>l\<close> with \<open>2 ^ l \<le> a / b < 2 ^ (l + 1)\<close>.\<close>

definition binary_exponent :: "int \<Rightarrow> int \<Rightarrow> int" where
  "binary_exponent a b =
     (let k = bitlen a - bitlen b
      in if (if 0 \<le> k then b * 2 ^ nat k \<le> a else b \<le> a * 2 ^ nat (- k)) then k else k - 1)"

text \<open>
  \<^verbatim>\<open>a / b\<close> for two integer-valued doubles \<open>a\<close> and \<open>b > 0\<close>: the significand has 53
  bits, so the exact quotient is scaled into \<open>[2 ^ 52, 2 ^ 53)\<close> and rounded there. (The
  quotients of this program are far from the overflow and subnormal ranges.)
\<close>

definition divide_double :: "int \<Rightarrow> int \<Rightarrow> double" where
  "divide_double a b =
     (if a = 0 then Double False 0 0
      else
        (let e = binary_exponent \<bar>a\<bar> b - 52;
             m = (if 0 \<le> e then round_half_even \<bar>a\<bar> (b * 2 ^ nat e)
                  else round_half_even (\<bar>a\<bar> * 2 ^ nat (- e)) b)
         in Double (a < 0) m e))"

text \<open>
  \<^verbatim>\<open>Number.prototype.toFixed(2)\<close> for a finite double below \<open>10 ^ 21\<close> in absolute
  value: a minus sign when the number is negative; then, for the absolute value \<open>x\<close>, the
  integer \<open>n\<close> with \<open>n / 100\<close> nearest to \<open>x\<close> (the larger one of two), written in decimal
  digits, padded with zeros on the left to three digits, with a point before the last two.
  For \<open>x = m * 2 ^ e\<close> that \<open>n\<close> is \<open>\<lfloor>100 * x + 1 / 2\<rfloor>\<close>.
\<close>

definition hundredths :: "double \<Rightarrow> nat" where
  "hundredths x =
     nat (if 0 \<le> exponent x then 100 * significand x * 2 ^ nat (exponent x)
          else (200 * significand x + 2 ^ nat (- exponent x))
                 div 2 ^ (nat (- exponent x) + 1))"

definition toFixed2 :: "double \<Rightarrow> jsstring" where
  "toFixed2 x =
     (let n = hundredths x;
          m = toString n;
          m' = replicate (3 - length m) (digit 0) @ m;
          k = length m'
      in (if negative x \<and> 0 < significand x then js ''-'' else [])
         @ take (k - 2) m' @ js ''.'' @ drop (k - 2) m')"

subsection \<open>The message list\<close>

text \<open>
  \<^verbatim>\<open>buildEmbeds(files, duration)\<close>. The summary's \<^verbatim>\<open>timestamp\<close> is
  \<^verbatim>\<open>new Date().toISOString()\<close>, the clock reading of the call: the parameter \<open>now\<close>.
\<close>

definition buildEmbeds ::
  "reporter_options \<Rightarrow> jsstring \<Rightarrow> test_file list \<Rightarrow> int \<Rightarrow> api_embed list" where
  "buildEmbeds opts now files duration =
     (let stats = calculateStats files;
          summaryEmbed =
            \<lparr>embed_title = title opts,
             color = (if failed stats > 0 then red else green),
             description = None,
             embed_fields = Some
               [\<lparr>field_name = 0x2705 # js '' Passed'',
                 field_value = toString (passed stats), field_inline = Some True\<rparr>,
                \<lparr>field_name = 0x274C # js '' Failed'',
                 field_value = toString (failed stats), field_inline = Some True\<rparr>,
                \<lparr>field_name = [0x23ED, 0xFE0F] @ js '' Skipped'',
                 field_value = toString (skipped stats), field_inline = Some True\<rparr>,
                \<lparr>field_name = [0x23F1, 0xFE0F] @ js '' Duration'',
                 field_value = toFixed2 (divide_double duration 1000) @ js ''s'',
                 field_inline = Some True\<rparr>,
                \<lparr>field_name = [0xD83D, 0xDCCA] @ js '' Total'',
                 field_value = toString (total stats), field_inline = Some True\<rparr>],
             footer = None,
             timestamp = Some now\<rparr>;
          summaryEmbed1 =
            (if failed stats > 0 \<and> mentionOnFailure opts \<noteq> []
             then summaryEmbed\<lparr>description := Some (mentionOnFailure opts)\<rparr>
             else summaryEmbed);
          embeds1 = [summaryEmbed1];
          failedTests = getFailedTests opts files;
          embeds2 =
            (if length failedTests > 0
             then (case buildFailedTestsEmbed failedTests of
                     Some failedEmbed \<Rightarrow> embeds1 @ [failedEmbed]
                   | None \<Rightarrow> embeds1)
             else embeds1);
          embeds3 =
            (if showPassedTests opts \<and> passed stats > 0
             then (case buildPassedTestsEmbed files of
                     Some passedEmbed \<Rightarrow> embeds2 @ [passedEmbed]
                   | None \<Rightarrow> embeds2)
             else embeds2)
      in embeds3)"

section \<open>Run Lifecycle Controller\<close>

text \<open>The constructor's optional argument, each option optional.\<close>

record reporter_options_arg =
  arg_webhookUrl :: "jsstring option"
  arg_title :: "jsstring option"
  arg_includeStackTrace :: "bool option"
  arg_mentionOnFailure :: "jsstring option"
  arg_showPassedTests :: "bool option"

text \<open>
  The reporter after \<^verbatim>\<open>onInit\<close>: its options, the start instant in milliseconds, and of
  the runner's context what the reporter reads from it, the file list that
  \<^verbatim>\<open>ctx.state.getFiles()\<close> returns. The calls of the context's logger are the
  effect recorded below; a logger call returns normally.
\<close>

record reporter =
  reporterOptions :: reporter_options
  startTime :: int
  getFiles :: "test_file list"

definition constructor_options :: "reporter_options_arg option \<Rightarrow> reporter_options" where
  "constructor_options arg =
     \<lparr>webhookUrl = or_default (Option.bind arg arg_webhookUrl) [],
      title = or_default (Option.bind arg arg_title) (js ''Test Results''),
      includeStackTrace =
        (case Option.bind arg arg_includeStackTrace of Some b \<Rightarrow> b | None \<Rightarrow> False),
      mentionOnFailure = or_default (Option.bind arg arg_mentionOnFailure) [],
      showPassedTests =
        (case Option.bind arg arg_showPassedTests of Some b \<Rightarrow> b | None \<Rightarrow> True)\<rparr>"

text \<open>
  \<^verbatim>\<open>onInit(ctx)\<close> on a freshly constructed reporter; \<open>env\<close> is
  \<^verbatim>\<open>process.env.VITE_DISCORD_REPORTER_WEBHOOK_URL\<close> and \<open>now\<close> is \<^verbatim>\<open>Date.now()\<close>.
\<close>

definition onInit ::
  "reporter_options \<Rightarrow> jsstring option \<Rightarrow> test_file list \<Rightarrow> int \<Rightarrow> reporter" where
  "onInit opts env ctx_files now =
     \<lparr>reporterOptions =
        (if webhookUrl opts = [] \<and> or_default env [] \<noteq> []
         then opts\<lparr>webhookUrl := or_default env []\<rparr>
         else opts),
      startTime = now,
      getFiles = ctx_files\<rparr>"

text \<open>
  What a call of \<^verbatim>\<open>onFinished\<close> does to the outside: the calls of the logger's
  \<^verbatim>\<open>log\<close>, \<^verbatim>\<open>warn\<close> and \<^verbatim>\<open>error\<close> in order, and the calls of
  \<^verbatim>\<open>sendDiscordMessage\<close>. The delivery function is not part of the reporter: it is a
  parameter that tells, for an endpoint and a message list, whether the promise it
  returns resolves, rejects with a cause (a throw inside it is a rejection of the awaited
  call), or never settles.
\<close>

datatype 'e log_call =
  Log jsstring | Warn jsstring | Error jsstring 'e

datatype 'e send_outcome = Resolved | Rejected 'e | Pending

datatype 'e completion = Normal | Throws 'e | Suspended

record 'e effects =
  logged :: "'e log_call list"
  sent :: "(jsstring \<times> api_embed list) list"

text \<open>The \<^verbatim>\<open>try\<close> block of \<^verbatim>\<open>onFinished\<close>, with how it is left.\<close>

definition try_send ::
  "(jsstring \<Rightarrow> api_embed list \<Rightarrow> 'e send_outcome) \<Rightarrow> reporter_options \<Rightarrow> api_embed list
     \<Rightarrow> 'e effects \<times> 'e completion" where
  "try_send send opts embeds =
     (if webhookUrl opts \<noteq> [] then
        (case send (webhookUrl opts) embeds of
           Resolved \<Rightarrow>
             (\<lparr>logged = [Log (0x2705 # js '' Discord notification sent'')],
               sent = [(webhookUrl opts, embeds)]\<rparr>, Normal)
         | Rejected cause \<Rightarrow>
             (\<lparr>logged = [], sent = [(webhookUrl opts, embeds)]\<rparr>, Throws cause)
         | Pending \<Rightarrow>
             (\<lparr>logged = [], sent = [(webhookUrl opts, embeds)]\<rparr>, Suspended))
      else
        (\<lparr>logged = [Warn ([0x26A0, 0xFE0F]
                          @ js '' Discord webhook URL not provided. Skipping notification.'')],
          sent = []\<rparr>, Normal))"

text \<open>
  \<^verbatim>\<open>onFinished(files?, _errors?)\<close>; \<open>now\<close> is \<^verbatim>\<open>Date.now()\<close> and \<open>now_iso\<close> the
  timestamp of the summary. The second component is how the call ends for its caller:
  \<open>Throws\<close> is a rejected promise.
\<close>

definition onFinished ::
  "(jsstring \<Rightarrow> api_embed list \<Rightarrow> 'e send_outcome) \<Rightarrow> reporter \<Rightarrow> test_file list option
     \<Rightarrow> int \<Rightarrow> jsstring \<Rightarrow> 'e effects \<times> 'e completion" where
  "onFinished send this files now now_iso =
     (let testFiles = (case files of Some fs \<Rightarrow> fs | None \<Rightarrow> getFiles this);
          duration = now - startTime this;
          embeds = buildEmbeds (reporterOptions this) now_iso testFiles duration
      in case try_send send (reporterOptions this) embeds of
           (eff, Throws cause) \<Rightarrow>
             (eff\<lparr>logged := logged eff
                     @ [Error (0x274C # js '' Failed to send Discord notification:'') cause]\<rparr>,
              Normal)
         | (eff, c) \<Rightarrow> (eff, c))"

section \<open>The collected nodes, as the specification words them\<close>

text \<open>
  The nodes the two collectors emit, as the specification words them: the Test-variant
  nodes of the walk whose result state is fail (or pass), each with its path; the record
  of a failed node has the path joined by \<^verbatim>\<open>" > "\<close> as its name.
\<close>

definition is_failed_node :: "jsstring list \<times> task \<Rightarrow> bool" where
  "is_failed_node pt = (is_test (snd pt) \<and> counts_failed (snd pt))"

definition is_passed_node :: "jsstring list \<times> task \<Rightarrow> bool" where
  "is_passed_node pt = (is_test (snd pt) \<and> counts_passed (snd pt))"

definition path_name :: "jsstring list \<Rightarrow> jsstring" where
  "path_name p = join (js '' > '') p"

definition failed_record :: "reporter_options \<Rightarrow> jsstring list \<times> task \<Rightarrow> failed_test" where
  "failed_record opts pt =
     \<lparr>test_name = path_name (fst pt),
      error = (case result (snd pt) of Some r \<Rightarrow> errorText opts r | None \<Rightarrow> [])\<rparr>"

definition failed_nodes :: "test_file list \<Rightarrow> (jsstring list \<times> task) list" where
  "failed_nodes files = filter is_failed_node (all_nodes files)"

definition passed_nodes :: "test_file list \<Rightarrow> (jsstring list \<times> task) list" where
  "passed_nodes files = filter is_passed_node (all_nodes files)"

section \<open>The error text, as the specification words it\<close>

text \<open>
  The error text as the specification words it: the first error's message, or
  \<^verbatim>\<open>"Unknown error"\<close> when it is absent; with \<^verbatim>\<open>includeStackTrace\<close> and a stack
  string, the message followed by the fenced stack, cut at 800 characters with a marker
  when it is longer.
\<close>

definition spec_stack :: "jsstring \<Rightarrow> jsstring" where
  "spec_stack st =
     (if length st > 800 then take 800 st @ js ''\<newline>... (truncated)'' else st)"

definition spec_errorText :: "reporter_options \<Rightarrow> task_result \<Rightarrow> jsstring" where
  "spec_errorText opts r =
     (let msg = (case Option.bind (first_error r) message of
                   Some m \<Rightarrow> m
                 | None \<Rightarrow> js ''Unknown error'')
      in case Option.bind (first_error r) stack of
           Some st \<Rightarrow>
             if includeStackTrace opts
             then msg @ js ''\<newline>'' @ fence @ js ''\<newline>'' @ spec_stack st
                    @ js ''\<newline>'' @ fence
             else msg
         | None \<Rightarrow> msg)"

text \<open>The same with an empty message counted as absent and an empty stack as none.\<close>

definition spec_errorText_nonempty :: "reporter_options \<Rightarrow> task_result \<Rightarrow> jsstring" where
  "spec_errorText_nonempty opts r =
     (let msg = (case Option.bind (first_error r) message of
                   Some m \<Rightarrow> if m = [] then js ''Unknown error'' else m
                 | None \<Rightarrow> js ''Unknown error'')
      in case Option.bind (first_error r) stack of
           Some st \<Rightarrow>
             if includeStackTrace opts \<and> st \<noteq> []
             then msg @ js ''\<newline>'' @ fence @ js ''\<newline>'' @ spec_stack st
                    @ js ''\<newline>'' @ fence
             else msg
         | None \<Rightarrow> msg)"

section \<open>The messages, as the specification words them\<close>

text \<open>
  The failed-details message for a non-empty failed list \<open>F\<close>: the first ten records as
  fields, name and value each cut to its ceiling, and a description when more than ten
  records exist.
\<close>

definition failed_details :: "failed_test list \<Rightarrow> api_embed" where
  "failed_details F =
     \<lparr>embed_title = 0x274C # js '' Failed Tests'',
      color = red,
      description =
        (if length F > 10
         then Some (js ''Showing 10 of '' @ toString (length F) @ js '' failed tests'')
         else None),
      embed_fields = Some
        (map (\<lambda>t. \<lparr>field_name =
                      (if length (test_name t) \<le> 256 then test_name t
                       else take 253 (test_name t) @ js ''...''),
                    field_value =
                      (if length (error t) \<le> 1024 then error t
                       else take 1021 (error t) @ js ''...''),
                    field_inline = None\<rparr>)
             (take (min 10 (length F)) F)),
      footer = None,
      timestamp = None\<rparr>"

text \<open>
  The passed-details message for the passed paths \<open>P\<close> in traversal order: the body is
  the first twenty, each after a check mark and a space, joined by newlines and cut to
  the description ceiling; a footer when more than twenty paths exist.
\<close>

definition passed_body :: "jsstring list \<Rightarrow> jsstring" where
  "passed_body P =
     (let joined = join (js ''\<newline>'') (map check_line (take 20 P));
          body = (if length joined > 2048 then take 2045 joined @ js ''...'' else joined)
      in if body = [] then js ''All tests passed!'' else body)"

definition passed_details :: "jsstring list \<Rightarrow> api_embed" where
  "passed_details P =
     \<lparr>embed_title = 0x2705 # js '' Passed Tests'',
      color = green,
      description = Some (passed_body P),
      embed_fields = None,
      footer =
        (if length P > 20
         then Some \<lparr>footer_text = js ''Showing 20 of '' @ toString (length P)
                                   @ js '' passed tests''\<rparr>
         else None),
      timestamp = None\<rparr>"

text \<open>The summary message for the counts \<open>st\<close>.\<close>

definition summary_message ::
  "reporter_options \<Rightarrow> jsstring \<Rightarrow> stats \<Rightarrow> int \<Rightarrow> api_embed" where
  "summary_message opts now st duration =
     \<lparr>embed_title = title opts,
      color = (if failed st > 0 then red else green),
      description =
        (if failed st > 0 \<and> mentionOnFailure opts \<noteq> [] then Some (mentionOnFailure opts)
         else None),
      embed_fields = Some
        [\<lparr>field_name = 0x2705 # js '' Passed'',
          field_value = toString (passed st), field_inline = Some True\<rparr>,
         \<lparr>field_name = 0x274C # js '' Failed'',
          field_value = toString (failed st), field_inline = Some True\<rparr>,
         \<lparr>field_name = [0x23ED, 0xFE0F] @ js '' Skipped'',
          field_value = toString (skipped st), field_inline = Some True\<rparr>,
         \<lparr>field_name = [0x23F1, 0xFE0F] @ js '' Duration'',
          field_value = toFixed2 (divide_double duration 1000) @ js ''s'',
          field_inline = Some True\<rparr>,
         \<lparr>field_name = [0xD83D, 0xDCCA] @ js '' Total'',
          field_value = toString (total st), field_inline = Some True\<rparr>],
      footer = None,
      timestamp = Some now\<rparr>"

text \<open>The detail messages that follow the summary.\<close>

definition detail_messages :: "reporter_options \<Rightarrow> test_file list \<Rightarrow> api_embed list" where
  "detail_messages opts files =
     (if getFailedTests opts files \<noteq> [] then [failed_details (getFailedTests opts files)]
      else [])
     @ (if showPassedTests opts \<and> passed (calculateStats files) > 0
        then [passed_details (map path_name (map fst (passed_nodes files)))]
        else [])"

section \<open>The size ceilings\<close>

text \<open>
  The size ceilings of the receiving service: at most 10 fields in a message, a field
  name of at most 256 characters and a field value of at most 1024; a description of at
  most 2048 characters.
\<close>

definition fields_within :: "api_embed \<Rightarrow> bool" where
  "fields_within e =
     (case embed_fields e of
        None \<Rightarrow> True
      | Some fs \<Rightarrow>
          length fs \<le> 10
          \<and> list_all (\<lambda>f. length (field_name f) \<le> 256 \<and> length (field_value f) \<le> 1024) fs)"

definition description_within :: "api_embed \<Rightarrow> bool" where
  "description_within e =
     (case description e of None \<Rightarrow> True | Some d \<Rightarrow> length d \<le> 2048)"

section \<open>What the number formats denote\<close>

text \<open>The number a string of decimal digits denotes.\<close>

definition decimal_value :: "jsstring \<Rightarrow> nat" where
  "decimal_value s = foldl (\<lambda>v c. 10 * v + (unat c - 48)) 0 s"

text \<open>The real number that is the absolute value of a double.\<close>

definition magnitude :: "double \<Rightarrow> real" where
  "magnitude x = real_of_int (significand x) * 2 powi exponent x"

section \<open>Sample runs\<close>

text \<open>
  One file with one suite of three tests: one passed, one failed, one skipped without a
  result.
\<close>

definition sample_files :: "test_file list" where
  "sample_files =
     [\<lparr>file_name = js ''math.test.ts'',
       file_tasks = Some
         [Task Suite (js ''math'') Run None (Some
            [Task Test (js ''adds'') Run (Some \<lparr>state = Pass, errors = None\<rparr>) None,
             Task Test (js ''subtracts'') Run
               (Some \<lparr>state = Fail,
                      errors = Some [\<lparr>message = Some (js ''expected 1 to be 2''),
                                      stack = Some (js ''at math.test.ts:7:3'')\<rparr>]\<rparr>) None,
             Task Test (js ''divides'') Skip None None])]\<rparr>]"

definition sample_now :: jsstring where
  "sample_now = js ''2025-01-01T12:00:00.000Z''"

definition sample_options :: reporter_options where
  "sample_options =
     \<lparr>webhookUrl = js ''https://discord.example/hook'', title = js ''Test Results'',
      includeStackTrace = False, mentionOnFailure = js ''@here tests failed'',
      showPassedTests = True\<rparr>"

text \<open>Two failed results: an empty message with an empty stack, and a stack of 801 characters.\<close>

definition empty_message_result :: task_result where
  "empty_message_result =
     \<lparr>state = Fail, errors = Some [\<lparr>message = Some [], stack = Some []\<rparr>]\<rparr>"

definition long_stack_result :: task_result where
  "long_stack_result =
     \<lparr>state = Fail,
      errors = Some [\<lparr>message = Some (js ''boom''), stack = Some (replicate 801 0x61)\<rparr>]\<rparr>"

text \<open>One file of twelve failing tests.\<close>

definition twelve_failing :: "test_file list" where
  "twelve_failing =
     [\<lparr>file_name = js ''flaky.test.ts'',
       file_tasks = Some
         (map (\<lambda>i. Task Test (js ''case '' @ toString i) Run
                       (Some \<lparr>state = Fail, errors = None\<rparr>) None)
              [1, 2, 3, 4, 5, 6, 7, 8, 9, 10, 11, 12])\<rparr>]"

text \<open>A reporter constructed without a webhook and one constructed with the sample options.\<close>

definition sample_reporter :: "jsstring option \<Rightarrow> reporter" where
  "sample_reporter env = onInit sample_options env sample_files 1000"

definition unconfigured_reporter :: "jsstring option \<Rightarrow> reporter" where
  "unconfigured_reporter env = onInit (constructor_options None) env sample_files 1000"

text \<open>The sample options with a mention of 2049 characters.\<close>

definition long_mention_options :: reporter_options where
  "long_mention_options = sample_options\<lparr>mentionOnFailure := replicate 2049 0x40\<rparr>"

section \<open>Properties of the Stats Calculator\<close>

lemma tally_Nil: "tally [] s = s"
  by (simp add: tally_def)

lemma tally_append: "tally (xs @ ys) s = tally ys (tally xs s)"
  by (simp add: tally_def)

lemma fold_tally:
  assumes "\<And>c s. c \<in> set cs \<Longrightarrow> f c s = tally (g c) s"
  shows "fold f cs s = tally (concat (map g cs)) s"
  using assms
proof (induction cs arbitrary: s)
  case Nil
  then show ?case by (simp add: tally_Nil)
next
  case (Cons c cs)
  then show ?case by (simp add: tally_append)
qed

lemma tally_node:
  "(if ty = Test then
      (let s' = s\<lparr>total := total s + 1\<rparr> in
       if map_option state res = Some Pass then s'\<lparr>passed := passed s' + 1\<rparr>
       else if map_option state res = Some Fail then s'\<lparr>failed := failed s' + 1\<rparr>
       else if md = Skip \<or> md = Todo then s'\<lparr>skipped := skipped s' + 1\<rparr>
       else s')
    else s) = tally [Task ty nm md res ts] s"
  by (auto simp add: tally_def is_test_def counts_passed_def counts_failed_def
      counts_skipped_def state_of_def Let_def)

lemma countTests_tally: "countTests t s = tally (map snd (preorder p t)) s"
proof (induction t s arbitrary: p rule: countTests.induct)
  case (1 ty nm md res ts s)
  show ?case
  proof (cases ts)
    case None
    then show ?thesis
      using tally_node [of ty s res md nm ts] by (simp add: Let_def)
  next
    case (Some cs)
    have "\<And>c s'. c \<in> set cs \<Longrightarrow>
        countTests c s' = tally (map snd (preorder (p @ [nm]) c)) s'"
      using 1 Some by (simp add: Let_def)
    then have "\<And>s'. fold countTests cs s' =
        tally (concat (map (\<lambda>c. map snd (preorder (p @ [nm]) c)) cs)) s'"
      by (rule fold_tally)
    then have "countTests (Task ty nm md res ts) s =
        tally (concat (map (\<lambda>c. map snd (preorder (p @ [nm]) c)) cs))
          (tally [Task ty nm md res ts] s)"
      using Some tally_node [of ty s res md nm ts] by (simp add: Let_def)
    also have "\<dots> =
        tally ([Task ty nm md res ts]
               @ concat (map (\<lambda>c. map snd (preorder (p @ [nm]) c)) cs)) s"
      by (simp only: tally_append)
    also have "[Task ty nm md res ts] @ concat (map (\<lambda>c. map snd (preorder (p @ [nm]) c)) cs)
        = map snd (preorder p (Task ty nm md res ts))"
      using Some by (simp add: map_concat comp_def)
    finally show ?thesis .
  qed
qed

lemma file_tally:
  "(case file_tasks fl of Some ts \<Rightarrow> fold countTests ts s | None \<Rightarrow> s)
     = tally (map snd (file_nodes fl)) s"
proof (cases "file_tasks fl")
  case None
  then show ?thesis by (simp add: file_nodes_def tally_Nil)
next
  case (Some ts)
  have "fold countTests ts s =
      tally (concat (map (\<lambda>c. map snd (preorder [file_name fl] c)) ts)) s"
    by (rule fold_tally) (rule countTests_tally)
  then show ?thesis using Some by (simp add: file_nodes_def map_concat comp_def)
qed

lemma calculateStats_tally:
  "calculateStats files =
     tally (map snd (all_nodes files)) \<lparr>passed = 0, failed = 0, skipped = 0, total = 0\<rparr>"
proof -
  have "fold (\<lambda>fl s. case file_tasks fl of Some ts \<Rightarrow> fold countTests ts s | None \<Rightarrow> s)
          files s0
      = tally (concat (map (\<lambda>f. map snd (file_nodes f)) files)) s0" for s0
    by (rule fold_tally) (rule file_tally)
  then show ?thesis
    by (simp add: calculateStats_def all_nodes_def map_concat comp_def)
qed

lemma four_classes:
  "length ts = length (filter counts_passed ts) + length (filter counts_failed ts)
     + length (filter counts_skipped ts) + length (filter unclassified ts)"
  by (induction ts)
    (auto simp add: counts_passed_def counts_failed_def counts_skipped_def unclassified_def)

lemma passed_calculateStats:
  "passed (calculateStats files) = length (filter counts_passed (test_nodes files))"
  by (simp add: calculateStats_tally tally_def test_nodes_def)

lemma failed_calculateStats:
  "failed (calculateStats files) = length (filter counts_failed (test_nodes files))"
  by (simp add: calculateStats_tally tally_def test_nodes_def)

lemma skipped_calculateStats:
  "skipped (calculateStats files) = length (filter counts_skipped (test_nodes files))"
  by (simp add: calculateStats_tally tally_def test_nodes_def)

lemma total_calculateStats:
  "total (calculateStats files) = length (test_nodes files)"
  by (simp add: calculateStats_tally tally_def test_nodes_def)

text \<open>
  Claim C2. \<open>calculateStats\<close> counts over the Test-variant nodes of the depth-first
  pre-order walk of the file list (\<open>test_nodes\<close>; an absent \<^verbatim>\<open>tasks\<close> is an empty list of
  children and an absent \<^verbatim>\<open>result\<close> has no state): \<open>total\<close> is their number;
  \<open>passed\<close> counts those of state pass, \<open>failed\<close> those of state fail, \<open>skipped\<close> those of
  neither state whose mode is skip or todo. Suite nodes are not among the nodes counted.
  Hence \<open>total = passed + failed + skipped + u\<close>, where \<open>u\<close> is the number of Test nodes
  with neither a pass or fail state nor a skip or todo mode.
\<close>

theorem calculateStats_counts:
  "calculateStats files =
     \<lparr>passed = length (filter counts_passed (test_nodes files)),
      failed = length (filter counts_failed (test_nodes files)),
      skipped = length (filter counts_skipped (test_nodes files)),
      total = length (test_nodes files)\<rparr>
   \<and> total (calculateStats files) =
       passed (calculateStats files) + failed (calculateStats files)
       + skipped (calculateStats files) + length (filter unclassified (test_nodes files))"
proof -
  have "calculateStats files =
     \<lparr>passed = length (filter counts_passed (test_nodes files)),
      failed = length (filter counts_failed (test_nodes files)),
      skipped = length (filter counts_skipped (test_nodes files)),
      total = length (test_nodes files)\<rparr>"
    by (simp add: calculateStats_tally tally_def test_nodes_def)
  moreover have "total (calculateStats files) =
       passed (calculateStats files) + failed (calculateStats files)
       + skipped (calculateStats files) + length (filter unclassified (test_nodes files))"
    using four_classes [of "test_nodes files"]
    by (simp only: passed_calculateStats failed_calculateStats skipped_calculateStats
        total_calculateStats)
  ultimately show ?thesis by (rule conjI)
qed

text \<open>
  On the sample run, one suite with a passed, a failed and a skipped test: the counts are
  1, 1, 1 and 3, and no test is left unclassified.
\<close>

theorem calculateStats_counts_example:
  "calculateStats sample_files = \<lparr>passed = 1, failed = 1, skipped = 1, total = 3\<rparr>
   \<and> map name (test_nodes sample_files) = [js ''adds'', js ''subtracts'', js ''divides'']
   \<and> filter unclassified (test_nodes sample_files) = []"
proof -
  have "test_nodes sample_files =
      [Task Test (js ''adds'') Run (Some \<lparr>state = Pass, errors = None\<rparr>) None,
       Task Test (js ''subtracts'') Run
         (Some \<lparr>state = Fail,
                errors = Some [\<lparr>message = Some (js ''expected 1 to be 2''),
                                stack = Some (js ''at math.test.ts:7:3'')\<rparr>]\<rparr>) None,
       Task Test (js ''divides'') Skip None None]"
    by (simp add: test_nodes_def all_nodes_def file_nodes_def sample_files_def is_test_def)
  then show ?thesis
    using calculateStats_counts [of sample_files]
    by (simp add: counts_passed_def counts_failed_def counts_skipped_def unclassified_def
        state_of_def)
qed

section \<open>Properties of the Failed-Test Collector\<close>

lemma fold_append:
  assumes "\<And>c acc. c \<in> set cs \<Longrightarrow> f c acc = acc @ g c"
  shows "fold f cs acc = acc @ concat (map g cs)"
  using assms by (induction cs arbitrary: acc) simp_all

lemma collectFailed_preorder:
  "collectFailed opts t path acc =
     acc @ map (failed_record opts) (filter is_failed_node (preorder path t))"
proof (induction opts t path acc rule: collectFailed.induct)
  case (1 opts ty nm md res ts path acc)
  define here where "here = map (failed_record opts)
      (filter is_failed_node [(path @ [nm], Task ty nm md res ts)])"
  have step: "(case res of
               Some r \<Rightarrow>
                 if ty = Test \<and> state r = Fail
                 then acc @ [\<lparr>test_name = join (js '' > '') (path @ [nm]),
                              error = errorText opts r\<rparr>]
                 else acc
             | None \<Rightarrow> acc) = acc @ here"
    by (cases res)
      (auto simp add: here_def is_failed_node_def is_test_def counts_failed_def state_of_def
        failed_record_def path_name_def)
  show ?case
  proof (cases ts)
    case None
    then show ?thesis using step by (simp add: Let_def here_def)
  next
    case (Some cs)
    have "\<And>c a. c \<in> set cs \<Longrightarrow> collectFailed opts c (path @ [nm]) a =
        a @ map (failed_record opts) (filter is_failed_node (preorder (path @ [nm]) c))"
      using 1 Some by simp
    then have "\<And>a. fold (\<lambda>t acc. collectFailed opts t (path @ [nm]) acc) cs a =
        a @ concat (map (\<lambda>c. map (failed_record opts)
              (filter is_failed_node (preorder (path @ [nm]) c))) cs)"
      by (rule fold_append)
    then show ?thesis
      using Some step
      by (simp add: Let_def here_def map_concat filter_concat comp_def)
  qed
qed

lemma getFailedTests_nodes:
  "getFailedTests opts files = map (failed_record opts) (failed_nodes files)"
proof -
  have per_file: "(case file_tasks fl of
          Some ts \<Rightarrow> fold (\<lambda>t acc'. collectFailed opts t [file_name fl] acc') ts acc
        | None \<Rightarrow> acc)
      = acc @ map (failed_record opts) (filter is_failed_node (file_nodes fl))" for fl acc
  proof (cases "file_tasks fl")
    case None
    then show ?thesis by (simp add: file_nodes_def)
  next
    case (Some ts)
    have "fold (\<lambda>t acc'. collectFailed opts t [file_name fl] acc') ts acc =
        acc @ concat (map (\<lambda>c. map (failed_record opts)
              (filter is_failed_node (preorder [file_name fl] c))) ts)"
      by (rule fold_append) (rule collectFailed_preorder)
    then show ?thesis
      using Some by (simp add: file_nodes_def map_concat filter_concat comp_def)
  qed
  have "fold (\<lambda>fl acc. case file_tasks fl of
          Some ts \<Rightarrow> fold (\<lambda>t acc'. collectFailed opts t [file_name fl] acc') ts acc
        | None \<Rightarrow> acc) files acc
      = acc @ concat (map (\<lambda>fl. map (failed_record opts)
            (filter is_failed_node (file_nodes fl))) files)" for acc
    by (rule fold_append) (rule per_file)
  then show ?thesis
    by (simp add: getFailedTests_def failed_nodes_def all_nodes_def map_concat
        filter_concat comp_def)
qed

section \<open>Properties of the Passed-Test Collector\<close>

lemma collectPassed_preorder:
  "collectPassed t path acc =
     acc @ map (\<lambda>pt. path_name (fst pt)) (filter is_passed_node (preorder path t))"
proof (induction t path acc rule: collectPassed.induct)
  case (1 ty nm md res ts path acc)
  define here where "here = map (\<lambda>pt. path_name (fst pt))
      (filter is_passed_node [(path @ [nm], Task ty nm md res ts)])"
  have step: "(if ty = Test \<and> map_option state res = Some Pass
             then acc @ [join (js '' > '') (path @ [nm])]
             else acc) = acc @ here"
    by (auto simp add: here_def is_passed_node_def is_test_def counts_passed_def state_of_def
        path_name_def)
  show ?case
  proof (cases ts)
    case None
    then show ?thesis using step by (simp add: Let_def here_def)
  next
    case (Some cs)
    have "\<And>c a. c \<in> set cs \<Longrightarrow> collectPassed c (path @ [nm]) a =
        a @ map (\<lambda>pt. path_name (fst pt)) (filter is_passed_node (preorder (path @ [nm]) c))"
      using 1 Some by simp
    then have "\<And>a. fold (\<lambda>t acc. collectPassed t (path @ [nm]) acc) cs a =
        a @ concat (map (\<lambda>c. map (\<lambda>pt. path_name (fst pt))
              (filter is_passed_node (preorder (path @ [nm]) c))) cs)"
      by (rule fold_append)
    then show ?thesis
      using Some step
      by (simp add: Let_def here_def map_concat filter_concat comp_def)
  qed
qed

lemma passedTests_nodes:
  "passedTests files = map (\<lambda>pt. path_name (fst pt)) (passed_nodes files)"
proof -
  have per_file: "(case file_tasks fl of
          Some ts \<Rightarrow> fold (\<lambda>t acc'. collectPassed t [file_name fl] acc') ts acc
        | None \<Rightarrow> acc)
      = acc @ map (\<lambda>pt. path_name (fst pt)) (filter is_passed_node (file_nodes fl))" for fl acc
  proof (cases "file_tasks fl")
    case None
    then show ?thesis by (simp add: file_nodes_def)
  next
    case (Some ts)
    have "fold (\<lambda>t acc'. collectPassed t [file_name fl] acc') ts acc =
        acc @ concat (map (\<lambda>c. map (\<lambda>pt. path_name (fst pt))
              (filter is_passed_node (preorder [file_name fl] c))) ts)"
      by (rule fold_append) (rule collectPassed_preorder)
    then show ?thesis
      using Some by (simp add: file_nodes_def map_concat filter_concat comp_def)
  qed
  have "fold (\<lambda>fl acc. case file_tasks fl of
          Some ts \<Rightarrow> fold (\<lambda>t acc'. collectPassed t [file_name fl] acc') ts acc
        | None \<Rightarrow> acc) files acc
      = acc @ concat (map (\<lambda>fl. map (\<lambda>pt. path_name (fst pt))
            (filter is_passed_node (file_nodes fl))) files)" for acc
    by (rule fold_append) (rule per_file)
  then show ?thesis
    by (simp add: passedTests_def passed_nodes_def all_nodes_def map_concat
        filter_concat comp_def)
qed

section \<open>Paths\<close>

lemma preorder_paths:
  "list_all (\<lambda>pt. \<exists>rest. fst pt = path @ rest @ [name (snd pt)]) (preorder path t)"
proof (induction path t rule: preorder.induct)
  case (1 path ty nm md res ts)
  show ?case
  proof (cases ts)
    case None
    then show ?thesis by simp
  next
    case (Some cs)
    have "\<exists>rest. fst pt = path @ rest @ [name (snd pt)]"
      if "c \<in> set cs" and "pt \<in> set (preorder (path @ [nm]) c)" for c pt
    proof -
      have "list_all (\<lambda>pt. \<exists>rest. fst pt = (path @ [nm]) @ rest @ [name (snd pt)])
          (preorder (path @ [nm]) c)"
        using that(1) by (rule 1 [OF Some])
      with that(2) have "\<exists>rest. fst pt = (path @ [nm]) @ rest @ [name (snd pt)]"
        unfolding list_all_iff by blast
      then obtain rest where "fst pt = (path @ [nm]) @ rest @ [name (snd pt)]" by blast
      then have "fst pt = path @ (nm # rest) @ [name (snd pt)]" by simp
      then show ?thesis by blast
    qed
    then show ?thesis using Some by (auto simp add: list_all_iff)
  qed
qed

lemma all_nodes_paths:
  "list_all (\<lambda>pt. \<exists>fl rest. fl \<in> set files \<and> fst pt = file_name fl # rest @ [name (snd pt)])
     (all_nodes files)"
proof -
  have "\<exists>fl rest. fl \<in> set files \<and> fst pt = file_name fl # rest @ [name (snd pt)]"
    if "fl \<in> set files" and "pt \<in> set (file_nodes fl)" for fl pt
  proof (cases "file_tasks fl")
    case None
    with that(2) show ?thesis by (simp add: file_nodes_def)
  next
    case (Some ts)
    with that(2) obtain c where c: "c \<in> set ts" "pt \<in> set (preorder [file_name fl] c)"
      by (auto simp add: file_nodes_def)
    from preorder_paths [of "[file_name fl]" c] c(2)
    have "\<exists>rest. fst pt = [file_name fl] @ rest @ [name (snd pt)]"
      unfolding list_all_iff by blast
    then obtain rest where "fst pt = file_name fl # rest @ [name (snd pt)]" by auto
    with that(1) show ?thesis by blast
  qed
  then show ?thesis by (auto simp add: all_nodes_def list_all_iff)
qed

text \<open>
  Claim C3. \<open>getFailedTests\<close> returns one record for each Test-variant node whose
  result state is fail, in the order of the depth-first pre-order walk over the files in
  array order (\<open>failed_nodes\<close>), so as many records as \<open>calculateStats\<close> counts failed
  tests; the name of a record is the node's path joined by \<^verbatim>\<open>" > "\<close>, and that path
  starts with the name of a file of the list and ends with the node's own name.
\<close>

theorem getFailedTests_preorder:
  "getFailedTests opts files = map (failed_record opts) (failed_nodes files)
   \<and> map test_name (getFailedTests opts files)
       = map (\<lambda>pt. join (js '' > '') (fst pt)) (failed_nodes files)
   \<and> length (getFailedTests opts files) = length (filter counts_failed (test_nodes files))
   \<and> list_all (\<lambda>pt. \<exists>fl rest. fl \<in> set files \<and> fst pt = file_name fl # rest @ [name (snd pt)])
       (failed_nodes files)"
proof -
  have "map test_name (map (failed_record opts) (failed_nodes files))
      = map (\<lambda>pt. join (js '' > '') (fst pt)) (failed_nodes files)"
    by (simp add: failed_record_def path_name_def comp_def)
  moreover have "length (failed_nodes files) = length (filter counts_failed (test_nodes files))"
  proof -
    have "map snd (filter is_failed_node xs) = filter counts_failed (filter is_test (map snd xs))"
      for xs :: "(jsstring list \<times> task) list"
      by (induction xs) (auto simp add: is_failed_node_def)
    from this [of "all_nodes files"] have "map snd (failed_nodes files) = filter counts_failed (test_nodes files)"
      by (simp add: failed_nodes_def test_nodes_def)
    then have "length (map snd (failed_nodes files)) = length (filter counts_failed (test_nodes files))"
      by simp
    then show ?thesis by simp
  qed
  moreover have "list_all (\<lambda>pt. \<exists>fl rest. fl \<in> set files \<and> fst pt = file_name fl # rest @ [name (snd pt)])
       (failed_nodes files)"
    using all_nodes_paths [of files] by (auto simp add: failed_nodes_def list_all_iff)
  ultimately show ?thesis by (simp add: getFailedTests_nodes)
qed

text \<open>On the sample run: one record, named by file, suite and test.\<close>

theorem getFailedTests_preorder_example:
  "getFailedTests sample_options sample_files
     = [\<lparr>test_name = js ''math.test.ts > math > subtracts'', error = js ''expected 1 to be 2''\<rparr>]
   \<and> map fst (failed_nodes sample_files) = [[js ''math.test.ts'', js ''math'', js ''subtracts'']]"
proof -
  have "failed_nodes sample_files
      = [([js ''math.test.ts'', js ''math'', js ''subtracts''],
          Task Test (js ''subtracts'') Run
               (Some \<lparr>state = Fail,
                      errors = Some [\<lparr>message = Some (js ''expected 1 to be 2''),
                                      stack = Some (js ''at math.test.ts:7:3'')\<rparr>]\<rparr>) None)]"
    by (simp add: failed_nodes_def all_nodes_def file_nodes_def sample_files_def
        is_failed_node_def is_test_def counts_failed_def state_of_def)
  then show ?thesis
    using getFailedTests_preorder [of sample_options sample_files]
    by (simp add: failed_record_def path_name_def errorText_def first_error_def or_default_def
        sample_options_def js_def)
qed

section \<open>Properties of the error text\<close>

lemma truncateStackTrace_spec: "truncateStackTrace st 800 = spec_stack st"
  by (simp add: truncateStackTrace_def spec_stack_def)

lemma errorText_nonempty: "errorText opts r = spec_errorText_nonempty opts r"
  by (cases "first_error r")
    (auto simp add: errorText_def spec_errorText_nonempty_def or_default_def Let_def
      truncateStackTrace_spec split: option.splits)

text \<open>
  An error whose message is the empty string (\<^verbatim>\<open>throw new Error()\<close>) is reported as
  \<^verbatim>\<open>"Unknown error"\<close>, and its empty stack is not fenced: the specification's wording
  gives the empty message followed by an empty fenced block.
\<close>

theorem errorText_empty_message:
  "errorText (sample_options\<lparr>includeStackTrace := True\<rparr>) empty_message_result
     = js ''Unknown error''
   \<and> spec_errorText (sample_options\<lparr>includeStackTrace := True\<rparr>) empty_message_result
     = js ''\<newline>'' @ fence @ js ''\<newline>\<newline>'' @ fence
   \<and> errorText (sample_options\<lparr>includeStackTrace := True\<rparr>) empty_message_result
     \<noteq> spec_errorText (sample_options\<lparr>includeStackTrace := True\<rparr>) empty_message_result"
  by (simp add: errorText_def spec_errorText_def or_default_def first_error_def
      empty_message_result_def sample_options_def spec_stack_def js_def fence_def)

text \<open>
  Claim C4, amended. The error text of a failed test is the first error's message, or
  \<^verbatim>\<open>"Unknown error"\<close> when that message is absent or empty; when
  \<^verbatim>\<open>includeStackTrace\<close> is set and the first error has a non-empty stack, it is the
  message, a newline, a fenced code block holding the stack, where the stack is cut to
  its first 800 characters followed by \<^verbatim>\<open>"\n... (truncated)"\<close> exactly when it is
  longer than 800 characters. Every record of \<open>getFailedTests\<close> carries this text for
  the result of its node.
\<close>

theorem errorText_as_amended:
  "errorText opts r = spec_errorText_nonempty opts r
   \<and> map error (getFailedTests opts files)
       = map (\<lambda>pt. case result (snd pt) of
                      Some r \<Rightarrow> spec_errorText_nonempty opts r
                    | None \<Rightarrow> [])
             (failed_nodes files)
   \<and> list_all (\<lambda>pt. result (snd pt) \<noteq> None) (failed_nodes files)"
proof -
  have "list_all (\<lambda>pt. result (snd pt) \<noteq> None) (failed_nodes files)"
    by (auto simp add: list_all_iff failed_nodes_def is_failed_node_def counts_failed_def
        state_of_def)
  then show ?thesis
    by (simp add: getFailedTests_nodes failed_record_def errorText_nonempty comp_def
        cong: option.case_cong)
qed

text \<open>A stack of 801 characters is cut to 800 and marked.\<close>

theorem errorText_as_amended_example:
  "errorText (sample_options\<lparr>includeStackTrace := True\<rparr>) long_stack_result
     = js ''boom\<newline>'' @ fence @ js ''\<newline>'' @ replicate 800 0x61
       @ js ''\<newline>... (truncated)\<newline>'' @ fence"
  using errorText_as_amended [of "sample_options\<lparr>includeStackTrace := True\<rparr>" long_stack_result]
  by (simp add: spec_errorText_nonempty_def spec_stack_def first_error_def
      long_stack_result_def sample_options_def js_def)

section \<open>Properties of the truncations\<close>

lemma length_js [simp]: "length (js s) = length s"
  by (simp add: js_def)

lemma truncateName_idem: "truncateName (truncateName s) = truncateName s"
  by (simp add: truncateName_def)

lemma truncateValue_idem: "truncateValue (truncateValue s) = truncateValue s"
  by (simp add: truncateValue_def)

lemma truncateDescription_idem:
  "truncateDescription (truncateDescription s) = truncateDescription s"
  by (simp add: truncateDescription_def)

lemma truncateStackTrace_idem:
  "truncateStackTrace (truncateStackTrace s n) n = truncateStackTrace s n"
  by (simp add: truncateStackTrace_def)

lemma length_truncateName: "length (truncateName s) \<le> 256"
  by (simp add: truncateName_def)

lemma length_truncateValue: "length (truncateValue s) \<le> 1024"
  by (simp add: truncateValue_def)

lemma length_truncateDescription: "length (truncateDescription s) \<le> 2048"
  by (simp add: truncateDescription_def)

text \<open>
  Claim C8. Each of the four cuts (field name at 256, field value at 1024, passed-tests
  description at 2048, stack trace at 800) returns a string within its limit unchanged,
  and applied to its own output returns that output.
\<close>

theorem truncation_idempotent:
  "(length s \<le> 256 \<longrightarrow> truncateName s = s)
   \<and> truncateName (truncateName s) = truncateName s
   \<and> (length s \<le> 1024 \<longrightarrow> truncateValue s = s)
   \<and> truncateValue (truncateValue s) = truncateValue s
   \<and> (length s \<le> 2048 \<longrightarrow> truncateDescription s = s)
   \<and> truncateDescription (truncateDescription s) = truncateDescription s
   \<and> (length s \<le> 800 \<longrightarrow> truncateStackTrace s 800 = s)
   \<and> truncateStackTrace (truncateStackTrace s 800) 800 = truncateStackTrace s 800"
  by (simp add: truncateName_idem truncateValue_idem truncateDescription_idem
      truncateStackTrace_idem)
    (simp add: truncateName_def truncateValue_def truncateDescription_def
      truncateStackTrace_def)

text \<open>On a short string every cut is the identity, twice over.\<close>

theorem truncation_idempotent_example:
  "length (js ''adds'') \<le> 256 \<and> truncateName (js ''adds'') = js ''adds''
   \<and> truncateName (truncateName (js ''adds'')) = js ''adds''
   \<and> truncateValue (js ''adds'') = js ''adds''
   \<and> truncateDescription (js ''adds'') = js ''adds''
   \<and> truncateStackTrace (js ''adds'') 800 = js ''adds''
   \<and> truncateStackTrace (truncateStackTrace (js ''adds'') 800) 800 = js ''adds''"
  using truncation_idempotent [of "js ''adds''"] by simp

text \<open>On long strings the cuts shorten once and then no more.\<close>

lemma truncation_long_example:
  "truncateName (replicate 300 0x61) = replicate 253 0x61 @ js ''...''
   \<and> truncateName (truncateName (replicate 300 0x61)) = replicate 253 0x61 @ js ''...''
   \<and> truncateStackTrace (replicate 900 0x61) 800
       = replicate 800 0x61 @ js ''\<newline>... (truncated)''
   \<and> truncateStackTrace (truncateStackTrace (replicate 900 0x61) 800) 800
       = replicate 800 0x61 @ js ''\<newline>... (truncated)''"
  by (simp add: truncateName_def truncateStackTrace_def)

section \<open>Properties of the Message Builder\<close>

lemma buildFailedTestsEmbed_details:
  "buildFailedTestsEmbed F = (if F = [] then None else Some (failed_details F))"
  by (simp add: buildFailedTestsEmbed_def failed_details_def truncateName_def
      truncateValue_def Let_def not_le min_def)

lemma passedTests_paths: "passedTests files = map path_name (map fst (passed_nodes files))"
  by (simp add: passedTests_nodes comp_def)

lemma buildPassedTestsEmbed_details:
  "buildPassedTestsEmbed files =
     (if passedTests files = [] then None else Some (passed_details (passedTests files)))"
  by (simp add: buildPassedTestsEmbed_def passed_details_def passed_body_def
      truncateDescription_def Let_def)

lemma length_getFailedTests:
  "length (getFailedTests opts files) = failed (calculateStats files)"
proof -
  have "map snd (filter is_failed_node xs) = filter counts_failed (filter is_test (map snd xs))"
    for xs :: "(jsstring list \<times> task) list"
    by (induction xs) (auto simp add: is_failed_node_def)
  from this [of "all_nodes files"]
  have "length (map snd (failed_nodes files)) = length (filter counts_failed (test_nodes files))"
    by (simp only: failed_nodes_def test_nodes_def)
  then show ?thesis
    by (simp add: getFailedTests_nodes failed_calculateStats)
qed

lemma length_passedTests:
  "length (passedTests files) = passed (calculateStats files)"
proof -
  have "map snd (filter is_passed_node xs) = filter counts_passed (filter is_test (map snd xs))"
    for xs :: "(jsstring list \<times> task) list"
    by (induction xs) (auto simp add: is_passed_node_def)
  from this [of "all_nodes files"]
  have "length (map snd (passed_nodes files)) = length (filter counts_passed (test_nodes files))"
    by (simp only: passed_nodes_def test_nodes_def)
  then show ?thesis
    by (simp add: passedTests_nodes passed_calculateStats)
qed

lemma buildEmbeds_messages:
  "buildEmbeds opts now files duration =
     summary_message opts now (calculateStats files) duration # detail_messages opts files"
  unfolding detail_messages_def passedTests_paths [symmetric]
  by (simp add: buildEmbeds_def Let_def summary_message_def buildFailedTestsEmbed_details
      buildPassedTestsEmbed_details length_passedTests [symmetric])

lemma join_Cons_nonempty: "x \<noteq> [] \<Longrightarrow> join sep (x # xs) \<noteq> []"
  by (cases xs) simp_all

lemma passed_body_nonempty:
  "passed_body P =
     (if P = [] then js ''All tests passed!''
      else if length (join (js ''\<newline>'') (map check_line (take 20 P))) > 2048
      then take 2045 (join (js ''\<newline>'') (map check_line (take 20 P))) @ js ''...''
      else join (js ''\<newline>'') (map check_line (take 20 P)))"
proof (cases P)
  case Nil
  then show ?thesis by (simp add: passed_body_def)
next
  case (Cons p ps)
  have "join (js ''\<newline>'') (map check_line (take 20 P)) \<noteq> []"
    unfolding Cons by (simp add: join_Cons_nonempty check_line_def)
  then show ?thesis using Cons by (simp add: passed_body_def Let_def js_def)
qed

text \<open>
  Claim C6. The message list holds a failed-details message, right after the summary,
  exactly when the failed list is not empty. Its fields are the first \<open>min 10 N\<close> of the
  \<open>N\<close> failed records in traversal order; a field's name is the record's path when that
  has at most 256 characters and else its first 253 characters followed by
  \<^verbatim>\<open>"..."\<close>; its value is the error text when that has at most 1024 characters and
  else its first 1021 characters followed by \<^verbatim>\<open>"..."\<close>. The description is
  \<^verbatim>\<open>"Showing 10 of N failed tests"\<close> when \<open>N > 10\<close> and absent otherwise.
\<close>

theorem failed_details_message:
  "buildEmbeds opts now files duration =
     summary_message opts now (calculateStats files) duration
     # (if getFailedTests opts files \<noteq> [] then [failed_details (getFailedTests opts files)]
        else [])
     @ (if showPassedTests opts \<and> passed (calculateStats files) > 0
        then [passed_details (passedTests files)] else [])
   \<and> getFailedTests opts files = map (failed_record opts) (failed_nodes files)
   \<and> embed_fields (failed_details F) = Some
        (map (\<lambda>t. \<lparr>field_name =
                      (if length (test_name t) \<le> 256 then test_name t
                       else take 253 (test_name t) @ js ''...''),
                    field_value =
                      (if length (error t) \<le> 1024 then error t
                       else take 1021 (error t) @ js ''...''),
                    field_inline = None\<rparr>)
             (take (min 10 (length F)) F))
   \<and> description (failed_details F) =
        (if length F > 10
         then Some (js ''Showing 10 of '' @ toString (length F) @ js '' failed tests'')
         else None)"
  by (simp add: buildEmbeds_messages detail_messages_def passedTests_paths
      getFailedTests_nodes failed_details_def)

text \<open>Twelve failing tests: ten fields and \<^verbatim>\<open>"Showing 10 of 12 failed tests"\<close>.\<close>

theorem failed_details_message_example:
  "map (\<lambda>e. (map_option length (embed_fields e), description e))
       (buildEmbeds sample_options sample_now twelve_failing 2500)
     = [(Some 5, Some (js ''@here tests failed'')),
        (Some 10, Some (js ''Showing 10 of 12 failed tests''))]"
proof -
  have L: "length (getFailedTests sample_options twelve_failing) = 12"
    by (simp add: getFailedTests_def twelve_failing_def)
  then have F: "getFailedTests sample_options twelve_failing \<noteq> []"
    by auto
  have S: "calculateStats twelve_failing = \<lparr>passed = 0, failed = 12, skipped = 0, total = 12\<rparr>"
    by (simp add: calculateStats_def twelve_failing_def)
  have T: "toString 12 = js ''12''"
    by (simp add: toString.simps js_def digit_def)
  have "buildEmbeds sample_options sample_now twelve_failing 2500
      = [summary_message sample_options sample_now
           \<lparr>passed = 0, failed = 12, skipped = 0, total = 12\<rparr> 2500,
         failed_details (getFailedTests sample_options twelve_failing)]"
    using failed_details_message [of sample_options sample_now twelve_failing 2500 "[]"]
    by (simp add: S F)
  moreover have "description (summary_message sample_options sample_now
           \<lparr>passed = 0, failed = 12, skipped = 0, total = 12\<rparr> 2500) = Some (js ''@here tests failed'')"
    by (simp add: summary_message_def sample_options_def js_def)
  moreover have "map_option length (embed_fields (summary_message sample_options sample_now
           \<lparr>passed = 0, failed = 12, skipped = 0, total = 12\<rparr> 2500)) = Some 5"
    by (simp add: summary_message_def)
  moreover have "description (failed_details (getFailedTests sample_options twelve_failing))
      = Some (js ''Showing 10 of 12 failed tests'')"
    by (simp add: failed_details_def L T) (simp add: js_def)
  moreover have "map_option length (embed_fields
      (failed_details (getFailedTests sample_options twelve_failing))) = Some 10"
    by (simp add: failed_details_def L)
  ultimately show ?thesis by simp
qed

text \<open>
  Claim C7. The message list holds a passed-details message, after the summary and the
  failed-details message if any, exactly when \<^verbatim>\<open>showPassedTests\<close> is set and
  \<open>passed > 0\<close>. Its body is the first 20 passed paths in traversal order, each after
  \<^verbatim>\<open>"\<checkmark> "\<close>, joined by newlines, cut to its first 2045 characters followed by
  \<^verbatim>\<open>"..."\<close> when the joined string has more than 2048 characters;
  \<^verbatim>\<open>"All tests passed!"\<close> stands for an empty body (which a non-empty list of paths
  never gives). The footer is \<^verbatim>\<open>"Showing 20 of N passed tests"\<close> when there are
  \<open>N > 20\<close> passed paths and absent otherwise.
\<close>

theorem passed_details_message:
  "buildEmbeds opts now files duration =
     summary_message opts now (calculateStats files) duration
     # (if getFailedTests opts files \<noteq> [] then [failed_details (getFailedTests opts files)]
        else [])
     @ (if showPassedTests opts \<and> passed (calculateStats files) > 0
        then [passed_details (passedTests files)] else [])
   \<and> passedTests files = map (\<lambda>pt. join (js '' > '') (fst pt)) (passed_nodes files)
   \<and> description (passed_details P) = Some
        (let joined = join (js ''\<newline>'') (map (\<lambda>p. [0x2713, 0x20] @ p) (take 20 P));
             body = (if length joined > 2048 then take 2045 joined @ js ''...'' else joined)
         in if body = [] then js ''All tests passed!'' else body)
   \<and> (description (passed_details P) = Some (js ''All tests passed!'')) = (P = [])
   \<and> footer (passed_details P) =
        (if length P > 20
         then Some \<lparr>footer_text = js ''Showing 20 of '' @ toString (length P)
                                   @ js '' passed tests''\<rparr>
         else None)
   \<and> embed_fields (passed_details P) = None"
proof -
  have body: "passed_body P =
        (let joined = join (js ''\<newline>'') (map (\<lambda>p. [0x2713, 0x20] @ p) (take 20 P));
             body = (if length joined > 2048 then take 2045 joined @ js ''...'' else joined)
         in if body = [] then js ''All tests passed!'' else body)"
    unfolding passed_body_def check_line_def [abs_def] by (rule refl)
  have never: "(passed_body P = js ''All tests passed!'') = (P = [])"
  proof (cases P)
    case Nil
    then show ?thesis by (simp add: passed_body_def)
  next
    case (Cons p ps)
    have "hd (passed_body P) = 0x2713"
      unfolding passed_body_nonempty Cons
      by (cases ps) (simp_all add: check_line_def js_def)
    moreover have "hd (js ''All tests passed!'') \<noteq> (0x2713 :: 16 word)"
      by (simp add: js_def)
    ultimately show ?thesis using Cons by auto
  qed
  have "buildEmbeds opts now files duration =
     summary_message opts now (calculateStats files) duration
     # (if getFailedTests opts files \<noteq> [] then [failed_details (getFailedTests opts files)]
        else [])
     @ (if showPassedTests opts \<and> passed (calculateStats files) > 0
        then [passed_details (passedTests files)] else [])"
    by (simp add: buildEmbeds_messages detail_messages_def passedTests_paths)
  moreover have "passedTests files = map (\<lambda>pt. join (js '' > '') (fst pt)) (passed_nodes files)"
    by (simp add: passedTests_nodes path_name_def)
  moreover have "description (passed_details P) = Some
        (let joined = join (js ''\<newline>'') (map (\<lambda>p. [0x2713, 0x20] @ p) (take 20 P));
             body = (if length joined > 2048 then take 2045 joined @ js ''...'' else joined)
         in if body = [] then js ''All tests passed!'' else body)"
    using body by (simp add: passed_details_def)
  moreover have "(description (passed_details P) = Some (js ''All tests passed!'')) = (P = [])"
    using never by (simp add: passed_details_def)
  moreover have "footer (passed_details P) =
        (if length P > 20
         then Some \<lparr>footer_text = js ''Showing 20 of '' @ toString (length P)
                                   @ js '' passed tests''\<rparr>
         else None)"
    by (simp add: passed_details_def)
  moreover have "embed_fields (passed_details P) = None"
    by (simp add: passed_details_def)
  ultimately show ?thesis by (intro conjI)
qed

theorem passed_details_message_example:
  "map (\<lambda>e. (description e, footer e)) (tl (tl (buildEmbeds sample_options sample_now sample_files 2500)))
     = [(Some (0x2713 # js '' math.test.ts > math > adds''), None)]"
proof -
  have S: "calculateStats sample_files = \<lparr>passed = 1, failed = 1, skipped = 1, total = 3\<rparr>"
    by (simp add: calculateStats_def sample_files_def)
  have P: "passedTests sample_files = [js ''math.test.ts > math > adds'']"
    by (simp add: passedTests_def sample_files_def js_def)
  have F: "getFailedTests sample_options sample_files \<noteq> []"
    by (simp add: getFailedTests_def sample_files_def)
  have O: "showPassedTests sample_options"
    by (simp add: sample_options_def)
  have "tl (tl (buildEmbeds sample_options sample_now sample_files 2500))
      = [passed_details [js ''math.test.ts > math > adds'']]"
    using passed_details_message [of sample_options sample_now sample_files 2500 "[]"]
    by (simp add: S P F O)
  then show ?thesis
    by (simp add: passed_details_def passed_body_def check_line_def js_def)
qed

text \<open>
  Claim C10. The three walks agree: \<open>calculateStats\<close> counts as many failed tests as
  \<open>getFailedTests\<close> returns records and as many passed tests as
  \<open>buildPassedTestsEmbed\<close> collects paths. So the passed-details message, which
  \<open>buildEmbeds\<close> asks for when \<open>passed > 0\<close>, is built exactly when its own list is
  not empty, and the number in \<^verbatim>\<open>"Showing 10 of N failed tests"\<close> is the failed
  count.
\<close>

theorem walks_agree:
  "failed (calculateStats files) = length (getFailedTests opts files)
   \<and> passed (calculateStats files) = length (passedTests files)
   \<and> (buildPassedTestsEmbed files \<noteq> None) = (passed (calculateStats files) > 0)
   \<and> (buildPassedTestsEmbed files \<noteq> None) = (passedTests files \<noteq> [])
   \<and> map_option description (buildFailedTestsEmbed (getFailedTests opts files)) =
       (if failed (calculateStats files) = 0 then None
        else Some (if failed (calculateStats files) > 10
                   then Some (js ''Showing 10 of '' @ toString (failed (calculateStats files))
                              @ js '' failed tests'')
                   else None))"
proof -
  have F: "(getFailedTests opts files = []) = (failed (calculateStats files) = 0)"
    using length_getFailedTests [of opts files] by auto
  have P: "(passedTests files = []) = (passed (calculateStats files) = 0)"
    using length_passedTests [of files] by auto
  have "map_option description (buildFailedTestsEmbed (getFailedTests opts files)) =
       (if failed (calculateStats files) = 0 then None
        else Some (if failed (calculateStats files) > 10
                   then Some (js ''Showing 10 of '' @ toString (failed (calculateStats files))
                              @ js '' failed tests'')
                   else None))"
    by (simp add: buildFailedTestsEmbed_details failed_details_def F length_getFailedTests)
  moreover have "(buildPassedTestsEmbed files \<noteq> None) = (passed (calculateStats files) > 0)"
    by (simp add: buildPassedTestsEmbed_details P)
  moreover have "(buildPassedTestsEmbed files \<noteq> None) = (passedTests files \<noteq> [])"
    by (simp add: buildPassedTestsEmbed_details)
  ultimately show ?thesis
    by (simp only: length_getFailedTests length_passedTests simp_thms)
qed

theorem walks_agree_example:
  "failed (calculateStats sample_files) = 1 \<and> length (getFailedTests sample_options sample_files) = 1
   \<and> passed (calculateStats sample_files) = 1 \<and> length (passedTests sample_files) = 1
   \<and> buildPassedTestsEmbed sample_files \<noteq> None"
proof -
  have S: "calculateStats sample_files = \<lparr>passed = 1, failed = 1, skipped = 1, total = 3\<rparr>"
    by (simp add: calculateStats_def sample_files_def)
  show ?thesis
    using walks_agree [of sample_files sample_options] by (simp add: S)
qed

section \<open>Properties of the Run Lifecycle Controller\<close>

lemma webhookUrl_onInit:
  "webhookUrl (reporterOptions (onInit opts env ctx_files now)) =
     (if webhookUrl opts \<noteq> [] then webhookUrl opts else or_default env [])"
  by (simp add: onInit_def)

text \<open>
  Claim C9. For every call of \<open>onFinished\<close> (on a reporter whose \<open>onInit\<close> has run):
  when the webhook URL is empty, the delivery function is not called and the log holds
  exactly one call, a warning; when the delivery function rejects with a cause, the log
  holds exactly one call, an error whose first argument is the cross mark U+274C
  followed by \<^verbatim>\<open>" Failed to send Discord notification:"\<close> and whose second argument
  is the cause, and the call ends normally; when the delivery resolves, the log holds
  exactly one call, \<open>log\<close> of the check mark U+2705 followed by
  \<^verbatim>\<open>" Discord notification sent"\<close>. No call ends by throwing. After \<open>onInit\<close> the
  webhook URL is the configured one, or else the value of the environment variable, or
  else empty.
\<close>

theorem onFinished_outcomes:
  fixes send :: "jsstring \<Rightarrow> api_embed list \<Rightarrow> 'e send_outcome"
  shows
  "snd (onFinished send this files now now_iso) \<noteq> Throws cause
   \<and> (webhookUrl (reporterOptions this) = [] \<longrightarrow>
        onFinished send this files now now_iso =
          (\<lparr>logged = [Warn ([0x26A0, 0xFE0F]
                             @ js '' Discord webhook URL not provided. Skipping notification.'')],
            sent = []\<rparr>, Normal))
   \<and> (webhookUrl (reporterOptions this) \<noteq> []
        \<and> send (webhookUrl (reporterOptions this))
             (buildEmbeds (reporterOptions this) now_iso
                (case files of Some fs \<Rightarrow> fs | None \<Rightarrow> getFiles this) (now - startTime this))
           = Rejected cause \<longrightarrow>
        onFinished send this files now now_iso =
          (\<lparr>logged = [Error (0x274C # js '' Failed to send Discord notification:'') cause],
            sent = [(webhookUrl (reporterOptions this),
                     buildEmbeds (reporterOptions this) now_iso
                       (case files of Some fs \<Rightarrow> fs | None \<Rightarrow> getFiles this)
                       (now - startTime this))]\<rparr>, Normal))
   \<and> (webhookUrl (reporterOptions this) \<noteq> []
        \<and> send (webhookUrl (reporterOptions this))
             (buildEmbeds (reporterOptions this) now_iso
                (case files of Some fs \<Rightarrow> fs | None \<Rightarrow> getFiles this) (now - startTime this))
           = Resolved \<longrightarrow>
        onFinished send this files now now_iso =
          (\<lparr>logged = [Log (0x2705 # js '' Discord notification sent'')],
            sent = [(webhookUrl (reporterOptions this),
                     buildEmbeds (reporterOptions this) now_iso
                       (case files of Some fs \<Rightarrow> fs | None \<Rightarrow> getFiles this)
                       (now - startTime this))]\<rparr>, Normal))
   \<and> webhookUrl (reporterOptions (onInit opts env ctx_files t0)) =
       (if webhookUrl opts \<noteq> [] then webhookUrl opts else or_default env [])"
proof -
  have "snd (onFinished send this files now now_iso) \<noteq> Throws cause"
    by (simp add: onFinished_def try_send_def Let_def split: send_outcome.splits)
  then show ?thesis
    by (simp add: onFinished_def try_send_def Let_def webhookUrl_onInit)
qed

text \<open>
  Three runs: no webhook and no environment variable; a delivery that rejects with the
  cause \<^verbatim>\<open>"ECONNREFUSED"\<close>; a delivery that resolves, to a webhook taken from the
  environment.
\<close>

theorem onFinished_outcomes_example:
  "onFinished (\<lambda>url embeds. Rejected (js ''unused'')) (unconfigured_reporter None) None 3500
       sample_now
     = (\<lparr>logged = [Warn ([0x26A0, 0xFE0F]
                         @ js '' Discord webhook URL not provided. Skipping notification.'')],
         sent = []\<rparr>, Normal)
   \<and> fst (onFinished (\<lambda>url embeds. Rejected (js ''ECONNREFUSED'')) (sample_reporter None) None
          3500 sample_now)
     = \<lparr>logged = [Error (0x274C # js '' Failed to send Discord notification:'')
                    (js ''ECONNREFUSED'')],
        sent = [(js ''https://discord.example/hook'',
                 buildEmbeds sample_options sample_now sample_files 2500)]\<rparr>
   \<and> snd (onFinished (\<lambda>url embeds. Rejected (js ''ECONNREFUSED'')) (sample_reporter None) None
          3500 sample_now) = Normal
   \<and> map_prod logged (\<lambda>c. c)
        (onFinished (\<lambda>url embeds. Resolved :: jsstring send_outcome)
           (unconfigured_reporter (Some (js ''https://discord.example/env''))) None 3500
           sample_now)
     = ([Log (0x2705 # js '' Discord notification sent'')], Normal)"
proof -
  have u: "webhookUrl (reporterOptions (unconfigured_reporter None)) = []"
    by (simp add: unconfigured_reporter_def onInit_def constructor_options_def or_default_def)
  have s: "reporterOptions (sample_reporter None) = sample_options"
    "getFiles (sample_reporter None) = sample_files"
    "startTime (sample_reporter None) = 1000"
    "webhookUrl sample_options = js ''https://discord.example/hook''"
    by (simp_all add: sample_reporter_def onInit_def sample_options_def or_default_def js_def)
  have e: "webhookUrl (reporterOptions (unconfigured_reporter (Some (js ''https://discord.example/env''))))
      = js ''https://discord.example/env''"
    by (simp add: unconfigured_reporter_def onInit_def constructor_options_def or_default_def
        js_def)
  have n: "js ''https://discord.example/hook'' \<noteq> []" "js ''https://discord.example/env'' \<noteq> []"
    by (simp_all add: js_def)
  have "onFinished (\<lambda>url embeds. Rejected (js ''unused'')) (unconfigured_reporter None) None 3500
       sample_now
     = (\<lparr>logged = [Warn ([0x26A0, 0xFE0F]
                         @ js '' Discord webhook URL not provided. Skipping notification.'')],
         sent = []\<rparr>, Normal)"
    using onFinished_outcomes [of "\<lambda>url embeds. Rejected (js ''unused'')"
        "unconfigured_reporter None" None 3500 sample_now "js ''unused''"] u
    by simp
  moreover have "onFinished (\<lambda>url embeds. Rejected (js ''ECONNREFUSED'')) (sample_reporter None)
        None 3500 sample_now
     = (\<lparr>logged = [Error (0x274C # js '' Failed to send Discord notification:'')
                    (js ''ECONNREFUSED'')],
        sent = [(js ''https://discord.example/hook'',
                 buildEmbeds sample_options sample_now sample_files 2500)]\<rparr>, Normal)"
    using onFinished_outcomes [of "\<lambda>url embeds. Rejected (js ''ECONNREFUSED'')"
        "sample_reporter None" None 3500 sample_now "js ''ECONNREFUSED''"] n
    by (simp add: s)
  moreover have "onFinished (\<lambda>url embeds. Resolved :: jsstring send_outcome)
           (unconfigured_reporter (Some (js ''https://discord.example/env''))) None 3500
           sample_now
     = (\<lparr>logged = [Log (0x2705 # js '' Discord notification sent'')],
         sent = [(js ''https://discord.example/env'',
                  buildEmbeds
                    (reporterOptions (unconfigured_reporter (Some (js ''https://discord.example/env''))))
                    sample_now
                    (getFiles (unconfigured_reporter (Some (js ''https://discord.example/env''))))
                    (3500 - startTime (unconfigured_reporter (Some (js ''https://discord.example/env'')))))]\<rparr>,
        Normal)"
    using onFinished_outcomes [of "\<lambda>url embeds. Resolved :: jsstring send_outcome"
        "unconfigured_reporter (Some (js ''https://discord.example/env''))"
        None 3500 sample_now] n
    by (simp add: e)
  ultimately show ?thesis by simp
qed

section \<open>Properties of the number formats\<close>

lemma toString_nonempty: "toString n \<noteq> []"
  by (subst toString.simps) simp

lemma length_toString: "n < 10 ^ k \<Longrightarrow> 0 < k \<Longrightarrow> length (toString n) \<le> k"
proof (induction n arbitrary: k rule: toString.induct)
  case (1 n)
  show ?case
  proof (cases "n < 10")
    case True
    then show ?thesis using 1(3) by (subst toString.simps) simp
  next
    case False
    with 1(2) have "1 < k" by (cases k; cases "k - 1") auto
    then obtain j where k: "k = Suc j" and j: "0 < j" by (cases k) auto
    from 1(2) have "n div 10 < 10 ^ j" unfolding k by (simp add: less_mult_imp_div_less)
    from 1(1) [OF False this j] show ?thesis
      using False k by (subst toString.simps) simp
  qed
qed

lemma decimal_value_append:
  "decimal_value (s @ [c]) = 10 * decimal_value s + (unat c - 48)"
  by (simp add: decimal_value_def)

lemma unat_digit:
  assumes "d < 10"
  shows "unat (digit d) = 48 + d"
proof -
  have "unat (of_nat (48 + d) :: 16 word) = (48 + d) mod 2 ^ LENGTH(16)"
    by (rule unat_of_nat)
  then show ?thesis using assms by (simp add: digit_def)
qed

lemma decimal_value_toString: "decimal_value (toString n) = n"
proof (induction n rule: toString.induct)
  case (1 n)
  show ?case
  proof (cases "n < 10")
    case True
    then show ?thesis
      by (subst toString.simps) (simp add: decimal_value_def unat_digit)
  next
    case False
    have "decimal_value (toString n) =
        10 * decimal_value (toString (n div 10)) + (unat (digit (n mod 10)) - 48)"
      using False by (subst toString.simps) (simp add: decimal_value_append)
    also have "\<dots> = 10 * (n div 10) + n mod 10"
      using 1 [OF False] by (simp add: unat_digit)
    finally show ?thesis by simp
  qed
qed

lemma toFixed2_digits:
  "toFixed2 x =
     (if negative x \<and> 0 < significand x then js ''-'' else [])
     @ toString (hundredths x div 100) @ js ''.''
     @ [digit (hundredths x div 10 mod 10), digit (hundredths x mod 10)]"
proof -
  define n where "n = hundredths x"
  define m where "m = toString n"
  define m' where "m' = replicate (3 - length m) (digit 0) @ m"
  have "take (length m' - 2) m' = toString (n div 100)
      \<and> drop (length m' - 2) m' = [digit (n div 10 mod 10), digit (n mod 10)]"
  proof -
    consider "n < 10" | "10 \<le> n" "n < 100" | "100 \<le> n" by linarith
    then show ?thesis
    proof cases
      case 1
      then have "m = [digit n]" unfolding m_def by (subst toString.simps) simp
      moreover have "toString (n div 100) = [digit 0]"
        using 1 by (subst toString.simps) simp
      ultimately show ?thesis using 1 by (simp add: m'_def numeral_3_eq_3)
    next
      case 2
      then have "n div 10 < 10" by simp
      then have "toString (n div 10) = [digit (n div 10)]"
        by (subst toString.simps) simp
      with 2 have "m = [digit (n div 10), digit (n mod 10)]"
        unfolding m_def by (subst toString.simps) simp
      moreover have "toString (n div 100) = [digit 0]"
        using 2 by (subst toString.simps) simp
      ultimately show ?thesis using 2 by (simp add: m'_def)
    next
      case 3
      then have "\<not> n div 10 < 10" by simp
      then have "toString (n div 10) = toString (n div 10 div 10) @ [digit (n div 10 mod 10)]"
        by (subst toString.simps) simp
      moreover have "n div 10 div 10 = n div 100" by (simp add: div_mult2_eq)
      ultimately have "m = toString (n div 100) @ [digit (n div 10 mod 10), digit (n mod 10)]"
        using 3 unfolding m_def by (subst toString.simps) simp
      moreover have "Suc 0 \<le> length (toString (n div 100))"
        using toString_nonempty [of "n div 100"] by (cases "toString (n div 100)") simp_all
      ultimately show ?thesis by (simp add: m'_def)
    qed
  qed
  then show ?thesis
    unfolding toFixed2_def Let_def n_def [symmetric] m_def [symmetric] m'_def [symmetric]
    by simp
qed

section \<open>Properties of the division and the rounding\<close>

lemma round_half_even_close:
  assumes "0 < d"
  shows "\<bar>real_of_int (round_half_even n d) - real_of_int n / real_of_int d\<bar> \<le> 1 / 2"
proof -
  define q where "q = n div d"
  define r where "r = n mod d"
  have r: "0 \<le> r" "r < d" using assms by (simp_all add: r_def)
  have eq: "real_of_int n / real_of_int d = real_of_int q + real_of_int r / real_of_int d"
    unfolding q_def r_def by (rule of_int_div_aux)
  have d: "0 < real_of_int d" using assms by simp
  consider "2 * r < d" | "d < 2 * r" | "2 * r = d" by linarith
  then show ?thesis
  proof cases
    case 1
    then have "real_of_int r / real_of_int d \<le> 1 / 2"
      using d by (simp add: field_simps)
    moreover have "0 \<le> real_of_int r / real_of_int d" using r d by simp
    moreover have "round_half_even n d = q"
      using 1 by (simp add: round_half_even_def Let_def q_def r_def)
    ultimately show ?thesis using eq by simp
  next
    case 2
    then have "1 / 2 \<le> real_of_int r / real_of_int d"
      using d by (simp add: field_simps)
    moreover have "real_of_int r / real_of_int d \<le> 1" using r d by simp
    moreover have "round_half_even n d = q + 1"
      using 2 by (simp add: round_half_even_def Let_def q_def r_def)
    ultimately show ?thesis using eq by simp
  next
    case 3
    then have "real_of_int r / real_of_int d = 1 / 2"
      using d by (simp add: field_simps)
    moreover have "round_half_even n d = q \<or> round_half_even n d = q + 1"
      using 3 by (simp add: round_half_even_def Let_def q_def r_def)
    ultimately show ?thesis using eq by auto
  qed
qed

lemma bitlen_powi:
  assumes "0 < a"
  shows "2 powi (bitlen a - 1) \<le> real_of_int a" and "real_of_int a < 2 powi bitlen a"
proof -
  from bitlen_bounds [OF assms]
  have b: "2 ^ nat (bitlen a - 1) \<le> a" "a < 2 ^ nat (bitlen a)" by simp_all
  have pos: "1 \<le> bitlen a"
    using assms bitlen_eq_zero_iff [of a] bitlen_nonneg [of a] by linarith
  have "real_of_int (2 ^ nat (bitlen a - 1)) \<le> real_of_int a"
    using b(1) by (simp only: of_int_le_iff)
  then show "2 powi (bitlen a - 1) \<le> real_of_int a"
    using pos by (simp add: power_int_nonneg_exp)
  have "real_of_int a < real_of_int (2 ^ nat (bitlen a))"
    using b(2) by (simp only: of_int_less_iff)
  then show "real_of_int a < 2 powi bitlen a"
    using pos by (simp add: power_int_nonneg_exp)
qed

lemma binary_exponent_bounds:
  assumes "0 < a" "0 < b"
  shows "2 powi binary_exponent a b \<le> real_of_int a / real_of_int b"
    and "real_of_int a / real_of_int b < 2 powi (binary_exponent a b + 1)"
proof -
  define k where "k = bitlen a - bitlen b"
  define q where "q = real_of_int a / real_of_int b"
  have a: "0 < real_of_int a" and b: "0 < real_of_int b" using assms by simp_all
  have two: "(2::real) \<noteq> 0" by simp
  have test: "(if 0 \<le> k then b * 2 ^ nat k \<le> a else b \<le> a * 2 ^ nat (- k)) = (2 powi k \<le> q)"
  proof (cases "0 \<le> k")
    case True
    have "(b * 2 ^ nat k \<le> a) = (real_of_int (b * 2 ^ nat k) \<le> real_of_int a)"
      by (simp only: of_int_le_iff)
    also have "\<dots> = (2 ^ nat k \<le> q)"
      using b by (simp add: q_def field_simps)
    finally show ?thesis using True by (simp add: power_int_nonneg_exp)
  next
    case False
    then have p: "2 powi k = 1 / (2::real) ^ nat (- k)"
      by (simp add: power_int_def field_simps)
    have "(b \<le> a * 2 ^ nat (- k)) = (real_of_int b \<le> real_of_int (a * 2 ^ nat (- k)))"
      by (simp only: of_int_le_iff)
    also have "\<dots> = (1 / 2 ^ nat (- k) \<le> q)"
      using b by (simp add: q_def field_simps)
    finally show ?thesis using False p by simp
  qed
  have upper: "q < 2 powi (k + 1)"
  proof -
    have "q < 2 powi bitlen a / 2 powi (bitlen b - 1)"
      unfolding q_def
      using bitlen_powi(2) [OF assms(1)] bitlen_powi(1) [OF assms(2)] a b
      by (intro frac_less) simp_all
    also have "\<dots> = 2 powi (bitlen a - (bitlen b - 1))"
      by (simp add: power_int_diff)
    finally show ?thesis by (simp add: k_def algebra_simps)
  qed
  have lower: "2 powi (k - 1) \<le> q"
  proof -
    have "2 powi (bitlen a - 1) / 2 powi bitlen b \<le> q"
      unfolding q_def
      using bitlen_powi(1) [OF assms(1)] bitlen_powi(2) [OF assms(2)] a b
      by (intro frac_le) simp_all
    moreover have "2 powi (bitlen a - 1) / 2 powi bitlen b = (2::real) powi (bitlen a - 1 - bitlen b)"
      by (simp add: power_int_diff)
    ultimately show ?thesis by (simp add: k_def algebra_simps)
  qed
  have be: "binary_exponent a b = (if 2 powi k \<le> q then k else k - 1)"
    unfolding binary_exponent_def Let_def k_def [symmetric] test by (rule refl)
  show "2 powi binary_exponent a b \<le> real_of_int a / real_of_int b"
    using lower by (simp add: be q_def [symmetric])
  show "real_of_int a / real_of_int b < 2 powi (binary_exponent a b + 1)"
    using upper by (simp add: be q_def [symmetric])
qed

lemma divide_double_close:
  assumes "a \<noteq> 0" "0 < b"
  shows "\<bar>magnitude (divide_double a b) - \<bar>real_of_int a\<bar> / real_of_int b\<bar>
           \<le> 2 powi exponent (divide_double a b) / 2"
    and "2 powi exponent (divide_double a b) * 2 ^ 52 \<le> \<bar>real_of_int a\<bar> / real_of_int b"
    and "0 < significand (divide_double a b)"
    and "negative (divide_double a b) = (a < 0)"
proof -
  define A where "A = \<bar>a\<bar>"
  define e where "e = binary_exponent A b - 52"
  define m where "m = (if 0 \<le> e then round_half_even A (b * 2 ^ nat e)
                  else round_half_even (A * 2 ^ nat (- e)) b)"
  define q where "q = real_of_int A / real_of_int b"
  define y where "y = q * 2 powi (- e)"
  have x: "divide_double a b = Double (a < 0) m e"
    using assms(1) by (simp add: divide_double_def Let_def A_def e_def m_def)
  have A: "0 < A" using assms(1) by (simp add: A_def)
  have b: "0 < real_of_int b" using assms(2) by simp
  have qa: "q = \<bar>real_of_int a\<bar> / real_of_int b" by (simp add: q_def A_def)
  have low: "2 powi (e + 52) \<le> q"
    using binary_exponent_bounds(1) [OF A assms(2)] by (simp add: e_def q_def)
  have split: "2 powi (e + 52) = 2 powi e * (2::real) ^ 52"
    by (simp add: power_int_add)
  have pe: "0 < (2::real) powi e" by simp
  have yq: "y * 2 powi e = q"
    by (simp add: y_def power_int_minus)
  have close: "\<bar>real_of_int m - y\<bar> \<le> 1 / 2"
  proof (cases "0 \<le> e")
    case True
    have "0 < b * 2 ^ nat e" using assms(2) by simp
    from round_half_even_close [OF this, of A]
    have "\<bar>real_of_int m - real_of_int A / real_of_int (b * 2 ^ nat e)\<bar> \<le> 1 / 2"
      using True by (simp add: m_def)
    moreover have "real_of_int A / real_of_int (b * 2 ^ nat e) = y"
      using True by (simp add: y_def q_def power_int_minus power_int_nonneg_exp field_simps)
    ultimately show ?thesis by simp
  next
    case False
    from round_half_even_close [OF assms(2), of "A * 2 ^ nat (- e)"]
    have "\<bar>real_of_int m - real_of_int (A * 2 ^ nat (- e)) / real_of_int b\<bar> \<le> 1 / 2"
      using False by (simp add: m_def)
    moreover have "real_of_int (A * 2 ^ nat (- e)) / real_of_int b = y"
      using False by (simp add: y_def q_def power_int_nonneg_exp)
    ultimately show ?thesis by simp
  qed
  have "\<bar>real_of_int m * 2 powi e - q\<bar> = \<bar>real_of_int m - y\<bar> * 2 powi e"
  proof -
    have "real_of_int m * 2 powi e - q = (real_of_int m - y) * 2 powi e"
      using yq by (simp add: algebra_simps)
    then show ?thesis by (simp add: abs_mult)
  qed
  also have "\<dots> \<le> 1 / 2 * 2 powi e"
    using close pe by (intro mult_right_mono) simp_all
  finally show "\<bar>magnitude (divide_double a b) - \<bar>real_of_int a\<bar> / real_of_int b\<bar>
           \<le> 2 powi exponent (divide_double a b) / 2"
    by (simp add: x magnitude_def qa)
  show "2 powi exponent (divide_double a b) * 2 ^ 52 \<le> \<bar>real_of_int a\<bar> / real_of_int b"
    using low split by (simp add: x qa)
  have "2 ^ 52 * 2 powi e \<le> y * 2 powi e"
    using low split yq by (simp add: mult.commute)
  then have "(2::real) ^ 52 \<le> y" using pe by simp
  moreover have "(1::real) \<le> 2 ^ 52" by simp
  ultimately have "0 < real_of_int m" using close by linarith
  then show "0 < significand (divide_double a b)" by (simp add: x)
  show "negative (divide_double a b) = (a < 0)" by (simp add: x)
qed

lemma hundredths_floor:
  assumes "0 \<le> significand x"
  shows "int (hundredths x) = \<lfloor>100 * magnitude x + 1 / 2\<rfloor>"
proof (cases "0 \<le> exponent x")
  case True
  have "magnitude x = real_of_int (significand x * 2 ^ nat (exponent x))"
    using True by (simp add: magnitude_def power_int_nonneg_exp)
  then have "100 * magnitude x + 1 / 2
      = real_of_int (100 * significand x * 2 ^ nat (exponent x)) + 1 / 2"
    by simp
  then have "\<lfloor>100 * magnitude x + 1 / 2\<rfloor> = 100 * significand x * 2 ^ nat (exponent x)"
    by (simp only: floor_eq_iff) simp
  then show ?thesis using True assms by (simp add: hundredths_def)
next
  case False
  define k where "k = nat (- exponent x)"
  have p: "(2::real) powi exponent x = 1 / 2 ^ k"
    using False by (simp add: power_int_def k_def field_simps)
  have "real_of_int (200 * significand x + 2 ^ k) / real_of_int (2 ^ (k + 1))
      = 100 * magnitude x + 1 / 2"
    by (simp add: magnitude_def p field_simps)
  then have "\<lfloor>100 * magnitude x + 1 / 2\<rfloor> = (200 * significand x + 2 ^ k) div 2 ^ (k + 1)"
    using floor_divide_of_int_eq [of "200 * significand x + 2 ^ k" "2 ^ (k + 1)", where ?'a = real]
    by simp
  moreover have "0 \<le> (200 * significand x + 2 ^ k) div 2 ^ (k + 1)"
    using assms by (intro pos_imp_zdiv_nonneg_iff [THEN iffD2]) simp_all
  ultimately show ?thesis using False by (simp add: hundredths_def k_def)
qed

lemma hundredths_close:
  assumes "\<bar>d\<bar> < 2 ^ 53"
  shows "\<bar>10 * int (hundredths (divide_double d 1000)) - \<bar>d\<bar>\<bar> \<le> 5"
proof (cases "d = 0")
  case True
  then show ?thesis by (simp add: divide_double_def hundredths_def)
next
  case False
  define x where "x = divide_double d 1000"
  define q where "q = \<bar>real_of_int d\<bar> / 1000"
  define n where "n = int (hundredths x)"
  have c: "\<bar>magnitude x - q\<bar> \<le> 2 powi exponent x / 2"
    and l: "2 powi exponent x * 2 ^ 52 \<le> q"
    and s: "0 < significand x"
    using divide_double_close [OF False, of 1000] by (simp_all add: x_def q_def)
  have n: "n = \<lfloor>100 * magnitude x + 1 / 2\<rfloor>"
    using hundredths_floor [of x] s by (simp add: n_def)
  have "real_of_int \<bar>d\<bar> < 2 ^ 53"
    using assms by (metis of_int_less_iff of_int_numeral of_int_power)
  then have small: "q < 2 ^ 53 / 1000" by (simp add: q_def)
  have "\<bar>magnitude x - q\<bar> \<le> q / 2 ^ 53"
    using c l by (simp add: field_simps)
  moreover have "q / 2 ^ 53 < 1 / 1000"
    using small by (simp add: field_simps)
  ultimately have near: "\<bar>100 * magnitude x - 100 * q\<bar> < 1 / 10"
    by linarith
  have "real_of_int n \<le> 100 * magnitude x + 1 / 2"
    and "100 * magnitude x + 1 / 2 < real_of_int n + 1"
    unfolding n by linarith+
  with near have "\<bar>real_of_int n - 100 * q\<bar> < 6 / 10" by linarith
  then have "\<bar>10 * real_of_int n - \<bar>real_of_int d\<bar>\<bar> < 6"
    by (simp add: q_def field_simps)
  then have "real_of_int \<bar>10 * n - \<bar>d\<bar>\<bar> < 6" by simp
  then have "\<bar>10 * n - \<bar>d\<bar>\<bar> < 6" by linarith
  then show ?thesis by (simp add: n_def x_def)
qed

section \<open>Properties of the summary message\<close>

lemma toFixed2_sign:
  assumes "0 < b"
  shows "(negative (divide_double a b) \<and> 0 < significand (divide_double a b)) = (a < 0)"
proof (cases "a = 0")
  case True
  then show ?thesis by (simp add: divide_double_def)
next
  case False
  from divide_double_close(3,4) [OF False assms] show ?thesis by simp
qed

lemma duration_field:
  "toFixed2 (divide_double duration 1000) =
     (if duration < 0 then js ''-'' else [])
     @ toString (hundredths (divide_double duration 1000) div 100) @ js ''.''
     @ [digit (hundredths (divide_double duration 1000) div 10 mod 10),
        digit (hundredths (divide_double duration 1000) mod 10)]"
  using toFixed2_sign [of 1000 duration]
  by (simp add: toFixed2_digits)

lemma divide_double_2500:
  "divide_double 2500 1000 = Double False 5629499534213120 (- 51)"
  by (simp add: divide_double_def binary_exponent_def round_half_even_def Let_def
      compute_bitlen)

lemma hundredths_2500: "hundredths (divide_double 2500 1000) = 250"
  by (simp add: divide_double_2500 hundredths_def)

text \<open>
  Claim C5. For every file list and every duration that is a difference of clock
  readings (below \<open>2 ^ 53\<close> milliseconds in absolute value), the message list is the
  summary message followed by the detail messages only. The summary's color is red when
  \<open>failed > 0\<close> and green otherwise. It has the five fields Passed, Failed, Skipped,
  Duration and Total in this order; the count fields hold the decimal digits of their
  count; the Duration field holds a minus sign for a negative duration, the decimal
  digits of a whole part, a point, exactly two decimal digits and \<^verbatim>\<open>"s"\<close>, where the
  number of hundredths \<open>n\<close> so printed is within half a hundredth of
  \<open>duration / 1000\<close>, that is \<open>\<bar>10 * n - \<bar>duration\<bar>\<bar> \<le> 5\<close>. Its description is the
  configured \<^verbatim>\<open>mentionOnFailure\<close> when \<open>failed > 0\<close> and that string is not empty,
  and absent otherwise.
\<close>

theorem summary_message_first:
  fixes files :: "test_file list" and duration :: int
  defines "st \<equiv> calculateStats files"
    and "n \<equiv> hundredths (divide_double duration 1000)"
  assumes "\<bar>duration\<bar> < 2 ^ 53"
  shows
  "buildEmbeds opts now files duration =
     \<lparr>embed_title = title opts,
      color = (if failed st > 0 then red else green),
      description =
        (if failed st > 0 \<and> mentionOnFailure opts \<noteq> [] then Some (mentionOnFailure opts)
         else None),
      embed_fields = Some
        [\<lparr>field_name = 0x2705 # js '' Passed'',
          field_value = toString (passed st), field_inline = Some True\<rparr>,
         \<lparr>field_name = 0x274C # js '' Failed'',
          field_value = toString (failed st), field_inline = Some True\<rparr>,
         \<lparr>field_name = [0x23ED, 0xFE0F] @ js '' Skipped'',
          field_value = toString (skipped st), field_inline = Some True\<rparr>,
         \<lparr>field_name = [0x23F1, 0xFE0F] @ js '' Duration'',
          field_value =
            (if duration < 0 then js ''-'' else [])
            @ toString (n div 100) @ js ''.'' @ [digit (n div 10 mod 10), digit (n mod 10)]
            @ js ''s'',
          field_inline = Some True\<rparr>,
         \<lparr>field_name = [0xD83D, 0xDCCA] @ js '' Total'',
          field_value = toString (total st), field_inline = Some True\<rparr>],
      footer = None,
      timestamp = Some now\<rparr>
     # detail_messages opts files
   \<and> \<bar>10 * int n - \<bar>duration\<bar>\<bar> \<le> 5
   \<and> map decimal_value
         [toString (passed st), toString (failed st), toString (skipped st),
          toString (total st), toString (n div 100)]
       = [passed st, failed st, skipped st, total st, n div 100]
   \<and> red = 0xed4245 \<and> green = 0x57f287"
proof -
  have "\<bar>10 * int n - \<bar>duration\<bar>\<bar> \<le> 5"
    unfolding n_def using assms(3) by (rule hundredths_close)
  moreover have "buildEmbeds opts now files duration =
      summary_message opts now st duration # detail_messages opts files"
    unfolding st_def by (rule buildEmbeds_messages)
  ultimately show ?thesis
    by (simp add: summary_message_def duration_field n_def decimal_value_toString
        red_def green_def)
qed

text \<open>
  The sample run with a duration of 2500 ms: a red summary that mentions
  \<^verbatim>\<open>"@here tests failed"\<close>, counts 1, 1, 1 and 3, and the duration \<^verbatim>\<open>"2.50s"\<close>.
\<close>

theorem summary_message_first_example:
  "\<bar>2500 :: int\<bar> < 2 ^ 53
   \<and> hd (buildEmbeds sample_options sample_now sample_files 2500) =
     \<lparr>embed_title = js ''Test Results'',
      color = 0xed4245,
      description = Some (js ''@here tests failed''),
      embed_fields = Some
        [\<lparr>field_name = 0x2705 # js '' Passed'',
          field_value = js ''1'', field_inline = Some True\<rparr>,
         \<lparr>field_name = 0x274C # js '' Failed'',
          field_value = js ''1'', field_inline = Some True\<rparr>,
         \<lparr>field_name = [0x23ED, 0xFE0F] @ js '' Skipped'',
          field_value = js ''1'', field_inline = Some True\<rparr>,
         \<lparr>field_name = [0x23F1, 0xFE0F] @ js '' Duration'',
          field_value = js ''2.50s'', field_inline = Some True\<rparr>,
         \<lparr>field_name = [0xD83D, 0xDCCA] @ js '' Total'',
          field_value = js ''3'', field_inline = Some True\<rparr>],
      footer = None,
      timestamp = Some sample_now\<rparr>"
proof -
  have h: "\<bar>2500 :: int\<bar> < 2 ^ 53" by simp
  have S: "calculateStats sample_files = \<lparr>passed = 1, failed = 1, skipped = 1, total = 3\<rparr>"
    by (simp add: calculateStats_def sample_files_def)
  have T: "toString (Suc 0) = [0x31]" "toString 3 = [0x33]" "toString 2 = [0x32]"
    by (simp_all add: toString.simps digit_def)
  have D: "digit 5 = 0x35" "digit 0 = 0x30"
    by (simp_all add: digit_def)
  show ?thesis
    using summary_message_first [OF h, of sample_options sample_now sample_files]
    by (simp add: h S T D hundredths_2500 red_def sample_options_def js_def)
qed

section \<open>Properties of the size ceilings\<close>

lemma length_toString_count:
  assumes "k < 2 ^ 53"
  shows "length (toString k) \<le> 16"
proof -
  have "(2::nat) ^ 53 < 10 ^ 16" by simp
  with assms have "k < 10 ^ 16" by linarith
  then show ?thesis by (rule length_toString) simp
qed

lemma length_duration_field:
  assumes "\<bar>duration\<bar> < 2 ^ 53"
  shows "length (toFixed2 (divide_double duration 1000) @ js ''s'') \<le> 21"
proof -
  define n where "n = hundredths (divide_double duration 1000)"
  have "\<bar>10 * int n - \<bar>duration\<bar>\<bar> \<le> 5"
    unfolding n_def using assms by (rule hundredths_close)
  with assms have "10 * int n < 2 ^ 53 + 5" by linarith
  then have "int n < 2 ^ 53" by simp
  then have "n < 2 ^ 53" by (metis of_nat_less_iff of_nat_numeral of_nat_power)
  then have "n div 100 < 2 ^ 53" by (meson div_le_dividend le_less_trans)
  then have "length (toString (n div 100)) \<le> 16" by (rule length_toString_count)
  then show ?thesis
    by (simp add: duration_field n_def [symmetric])
qed

lemma fields_within_summary:
  assumes "passed st < 2 ^ 53" "failed st < 2 ^ 53" "skipped st < 2 ^ 53" "total st < 2 ^ 53"
    and "\<bar>duration\<bar> < 2 ^ 53"
  shows "fields_within (summary_message opts now st duration)"
proof -
  have "length (toString (passed st)) \<le> 1024" "length (toString (failed st)) \<le> 1024"
    "length (toString (skipped st)) \<le> 1024" "length (toString (total st)) \<le> 1024"
    using assms(1-4) [THEN length_toString_count] by simp_all
  moreover have "length (toFixed2 (divide_double duration 1000) @ js ''s'') \<le> 1024"
    using length_duration_field [OF assms(5)] by simp
  ultimately show ?thesis
    by (simp add: fields_within_def summary_message_def)
qed

lemma fields_within_failed_details: "fields_within (failed_details F)"
  by (simp add: fields_within_def failed_details_def list_all_iff)

lemma fields_within_passed_details: "fields_within (passed_details P)"
  by (simp add: fields_within_def passed_details_def)

lemma description_within_failed_details:
  assumes "length F < 2 ^ 53"
  shows "description_within (failed_details F)"
  using length_toString_count [OF assms]
  by (simp add: description_within_def failed_details_def)

lemma length_passed_body: "length (passed_body P) \<le> 2048"
  by (simp add: passed_body_def Let_def)

lemma description_within_passed_details: "description_within (passed_details P)"
  by (simp add: description_within_def passed_details_def length_passed_body)

lemma counts_le_total:
  "passed (calculateStats files) \<le> length (test_nodes files)"
  "failed (calculateStats files) \<le> length (test_nodes files)"
  "skipped (calculateStats files) \<le> length (test_nodes files)"
  "total (calculateStats files) = length (test_nodes files)"
  by (simp_all add: passed_calculateStats failed_calculateStats skipped_calculateStats
      total_calculateStats)

text \<open>
  A mention of 2049 characters and one failing test: the summary's description is the
  mention, above the ceiling of 2048.
\<close>

theorem long_mention_exceeds_ceiling:
  "description (hd (buildEmbeds long_mention_options sample_now sample_files 2500))
     = Some (replicate 2049 0x40)
   \<and> \<not> list_all description_within
         (buildEmbeds long_mention_options sample_now sample_files 2500)"
proof -
  have S: "calculateStats sample_files = \<lparr>passed = 1, failed = 1, skipped = 1, total = 3\<rparr>"
    by (simp add: calculateStats_def sample_files_def)
  have "description (summary_message long_mention_options sample_now
      (calculateStats sample_files) 2500) = Some (replicate 2049 0x40)"
    by (simp add: S summary_message_def long_mention_options_def)
  then show ?thesis
    by (simp add: buildEmbeds_messages description_within_def)
qed

text \<open>
  Claim C1, amended. For every configuration, every file list with fewer than \<open>2 ^ 53\<close>
  tests and every duration below \<open>2 ^ 53\<close> milliseconds in absolute value (the ranges in
  which the counters and the clock difference of the source are exact): every message
  has at most 10 fields, every field name has at most 256 characters and every field
  value at most 1024; the description of every detail message has at most 2048
  characters. The summary's description is the configured \<^verbatim>\<open>mentionOnFailure\<close>
  string as it is, not cut, when \<open>failed > 0\<close> and it is not empty; so it is within 2048
  characters exactly when no test failed or the configured string is.
\<close>

theorem size_ceilings:
  assumes "length (test_nodes files) < 2 ^ 53" and "\<bar>duration\<bar> < 2 ^ 53"
  shows
  "list_all fields_within (buildEmbeds opts now files duration)
   \<and> list_all description_within (tl (buildEmbeds opts now files duration))
   \<and> description (hd (buildEmbeds opts now files duration)) =
       (if failed (calculateStats files) > 0 \<and> mentionOnFailure opts \<noteq> []
        then Some (mentionOnFailure opts) else None)
   \<and> description_within (hd (buildEmbeds opts now files duration)) =
       (failed (calculateStats files) = 0 \<or> length (mentionOnFailure opts) \<le> 2048)"
proof -
  have c: "passed (calculateStats files) < 2 ^ 53" "failed (calculateStats files) < 2 ^ 53"
    "skipped (calculateStats files) < 2 ^ 53" "total (calculateStats files) < 2 ^ 53"
    using counts_le_total [of files] assms(1) by simp_all
  have F: "length (getFailedTests opts files) < 2 ^ 53"
    using c(2) by (simp add: length_getFailedTests)
  have "list_all fields_within (detail_messages opts files)"
    by (simp add: detail_messages_def fields_within_failed_details
        fields_within_passed_details)
  moreover have "list_all description_within (detail_messages opts files)"
    by (simp add: detail_messages_def description_within_failed_details [OF F]
        description_within_passed_details)
  moreover have "fields_within (summary_message opts now (calculateStats files) duration)"
    using c assms(2) by (rule fields_within_summary)
  moreover have "description_within (summary_message opts now (calculateStats files) duration)
      = (failed (calculateStats files) = 0 \<or> length (mentionOnFailure opts) \<le> 2048)"
    by (auto simp add: description_within_def summary_message_def)
  moreover have "description (summary_message opts now (calculateStats files) duration) =
       (if failed (calculateStats files) > 0 \<and> mentionOnFailure opts \<noteq> []
        then Some (mentionOnFailure opts) else None)"
    by (simp add: summary_message_def)
  ultimately show ?thesis
    by (simp add: buildEmbeds_messages)
qed

text \<open>On the sample run every message is within every ceiling.\<close>

theorem size_ceilings_example:
  "length (test_nodes sample_files) < 2 ^ 53 \<and> \<bar>2500 :: int\<bar> < 2 ^ 53
   \<and> list_all fields_within (buildEmbeds sample_options sample_now sample_files 2500)
   \<and> list_all description_within (tl (buildEmbeds sample_options sample_now sample_files 2500))
   \<and> description_within (hd (buildEmbeds sample_options sample_now sample_files 2500))"
proof -
  have n: "length (test_nodes sample_files) = 3"
    by (simp add: test_nodes_def all_nodes_def file_nodes_def sample_files_def is_test_def)
  have h: "length (test_nodes sample_files) < 2 ^ 53" "\<bar>2500 :: int\<bar> < 2 ^ 53"
    by (simp_all add: n)
  have m: "length (mentionOnFailure sample_options) \<le> 2048"
    by (simp add: sample_options_def)
  show ?thesis
    using size_ceilings [OF h, of sample_options sample_now] h m by simp
qed

end
